theory Spec2Isabelle
  imports Complex_Main
begin

section \<open>JavaScript numbers\<close>

text \<open>
  The calculators compute on JavaScript values of type \<open>number\<close>: IEEE 754 binary64
  values. A number is modelled as a finite value other than negative zero (\<open>Fin r\<close>,
  with \<open>r\<close> the real number the double stands for and \<open>Fin 0\<close> the positive zero), the
  negative zero, one of the two infinities, or NaN. The results of arithmetic are rounded
  to the nearest double, ties to even, and overflow to an infinity or underflow to a zero
  as the standard prescribes.
\<close>

datatype number = Fin real | NZero | PInf | NInf | NaN

subsection \<open>Rounding to binary64\<close>

text \<open>
  A finite double is \<open>m * 2^e\<close> with an integer \<open>m\<close> of magnitude below \<open>2^53\<close> and
  \<open>-1074 \<le> e \<le> 971\<close>. For a real \<open>x \<noteq> 0\<close> the doubles around \<open>x\<close> are the multiples
  of \<open>2^e\<close> with \<open>e = max (floor(log2 |x|) - 52) (-1074)\<close>; \<open>rnd_val\<close> takes the
  nearest multiple, the even one on a tie. \<open>round64\<close> is the double for a real result
  that is not an exact zero: magnitude \<open>2^1024\<close> or more after rounding is an infinity,
  and a result rounded to zero keeps the sign of \<open>x\<close>.
\<close>

definition ulp_exponent :: "real \<Rightarrow> int" where
  "ulp_exponent x = max (\<lfloor>log 2 \<bar>x\<bar>\<rfloor> - 52) (- 1074)"

definition round_even :: "real \<Rightarrow> int" where
  "round_even q =
     (let f = \<lfloor>q\<rfloor>; r = q - of_int f
      in if r < 1 / 2 then f else if 1 / 2 < r then f + 1 else if even f then f else f + 1)"

definition rnd_val :: "real \<Rightarrow> real" where
  "rnd_val x =
     (if x = 0 then 0
      else of_int (round_even (x / 2 powi ulp_exponent x)) * 2 powi ulp_exponent x)"

definition representable :: "real \<Rightarrow> bool" where
  "representable v = (\<exists>m e :: int. \<bar>m\<bar> < 2 ^ 53 \<and> - 1074 \<le> e \<and> v = of_int m * 2 powi e)"

definition is_double :: "real \<Rightarrow> bool" where
  "is_double v = (representable v \<and> \<bar>v\<bar> < 2 ^ 1024)"

definition zero_of :: "bool \<Rightarrow> number" where
  "zero_of neg = (if neg then NZero else Fin 0)"

definition inf_of :: "bool \<Rightarrow> number" where
  "inf_of neg = (if neg then NInf else PInf)"

definition round64 :: "real \<Rightarrow> number" where
  "round64 x =
     (let v = rnd_val x
      in if 2 ^ 1024 \<le> \<bar>v\<bar> then inf_of (x < 0)
         else if v = 0 then zero_of (x < 0)
         else Fin v)"

text \<open>A numeric literal of the source denotes the double nearest to its decimal value.\<close>

definition literal :: "real \<Rightarrow> number" where
  "literal x = round64 x"

subsection \<open>Arithmetic and comparison\<close>

fun real_of :: "number \<Rightarrow> real" where
  "real_of (Fin r) = r"
| "real_of x = 0"

fun negative :: "number \<Rightarrow> bool" where
  "negative (Fin r) = (r < 0)"
| "negative NZero = True"
| "negative NInf = True"
| "negative x = False"

fun is_zero :: "number \<Rightarrow> bool" where
  "is_zero (Fin r) = (r = 0)"
| "is_zero NZero = True"
| "is_zero x = False"

fun isFinite :: "number \<Rightarrow> bool" where
  "isFinite (Fin r) = True"
| "isFinite NZero = True"
| "isFinite x = False"

instantiation number :: "{plus, minus, uminus, times, inverse, ord}"
begin

fun uminus_number :: "number \<Rightarrow> number" where
  "uminus_number (Fin r) = (if r = 0 then NZero else Fin (- r))"
| "uminus_number NZero = Fin 0"
| "uminus_number PInf = NInf"
| "uminus_number NInf = PInf"
| "uminus_number NaN = NaN"

text \<open>
  A sum that is exactly zero is the negative zero only when both operands are negative
  zeros; \<open>x + (-x)\<close> is the positive zero.
\<close>

fun plus_number :: "number \<Rightarrow> number \<Rightarrow> number" where
  "plus_number NaN y = NaN"
| "plus_number x NaN = NaN"
| "plus_number PInf NInf = NaN"
| "plus_number NInf PInf = NaN"
| "plus_number PInf y = PInf"
| "plus_number NInf y = NInf"
| "plus_number x PInf = PInf"
| "plus_number x NInf = NInf"
| "plus_number x y =
     (let s = real_of x + real_of y
      in if s = 0 then zero_of (negative x \<and> negative y) else round64 s)"

definition minus_number :: "number \<Rightarrow> number \<Rightarrow> number" where
  "minus_number x y = x + (- y)"

text \<open>The sign of a product or a quotient is the exclusive or of the operands' signs.\<close>

fun times_number :: "number \<Rightarrow> number \<Rightarrow> number" where
  "times_number NaN y = NaN"
| "times_number x NaN = NaN"
| "times_number x y =
     (if isFinite x \<and> isFinite y then
        (let p = real_of x * real_of y
         in if p = 0 then zero_of (negative x \<noteq> negative y) else round64 p)
      else if is_zero x \<or> is_zero y then NaN
      else inf_of (negative x \<noteq> negative y))"

fun divide_number :: "number \<Rightarrow> number \<Rightarrow> number" where
  "divide_number NaN y = NaN"
| "divide_number x NaN = NaN"
| "divide_number x y =
     (if isFinite x \<and> isFinite y then
        (if is_zero y then (if is_zero x then NaN else inf_of (negative x \<noteq> negative y))
         else if is_zero x then zero_of (negative x \<noteq> negative y)
         else round64 (real_of x / real_of y))
      else if isFinite x then zero_of (negative x \<noteq> negative y)
      else if isFinite y then inf_of (negative x \<noteq> negative y)
      else NaN)"

definition inverse_number :: "number \<Rightarrow> number" where
  "inverse_number x = divide (Fin 1) x"

text \<open>Comparisons are false when an operand is NaN; the two zeros compare equal.\<close>

fun less_number :: "number \<Rightarrow> number \<Rightarrow> bool" where
  "less_number NaN y = False"
| "less_number x NaN = False"
| "less_number PInf y = False"
| "less_number x PInf = True"
| "less_number x NInf = False"
| "less_number NInf y = True"
| "less_number x y = (real_of x < real_of y)"

fun less_eq_number :: "number \<Rightarrow> number \<Rightarrow> bool" where
  "less_eq_number NaN y = False"
| "less_eq_number x NaN = False"
| "less_eq_number x PInf = True"
| "less_eq_number PInf y = False"
| "less_eq_number NInf y = True"
| "less_eq_number x NInf = False"
| "less_eq_number x y = (real_of x \<le> real_of y)"

instance ..

end

text \<open>\<open>x === y\<close> and \<open>x !== y\<close> on numbers: NaN is not equal to itself, and the two
  zeros are equal.\<close>

definition strict_eq :: "number \<Rightarrow> number \<Rightarrow> bool" where
  "strict_eq x y =
     (x \<noteq> NaN \<and> y \<noteq> NaN
      \<and> (if isFinite x \<and> isFinite y then real_of x = real_of y else x = y))"

definition strict_ne :: "number \<Rightarrow> number \<Rightarrow> bool" where
  "strict_ne x y = (\<not> strict_eq x y)"

text \<open>Truthiness of a number, and \<open>x || y\<close>: the zeros and NaN are falsy.\<close>

definition truthy :: "number \<Rightarrow> bool" where
  "truthy x = (\<not> is_zero x \<and> x \<noteq> NaN)"

definition or_else :: "number \<Rightarrow> number \<Rightarrow> number" where
  "or_else x y = (if truthy x then x else y)"

subsection \<open>The functions of \<open>Math\<close>\<close>

fun Math_abs :: "number \<Rightarrow> number" where
  "Math_abs (Fin r) = Fin \<bar>r\<bar>"
| "Math_abs NZero = Fin 0"
| "Math_abs PInf = PInf"
| "Math_abs NInf = PInf"
| "Math_abs NaN = NaN"

text \<open>\<open>Math.max\<close> of two arguments: NaN if either is NaN; the positive zero is larger
  than the negative zero.\<close>

fun Math_max :: "number \<Rightarrow> number \<Rightarrow> number" where
  "Math_max NaN y = NaN"
| "Math_max x NaN = NaN"
| "Math_max x y =
     (if x < y then y
      else if y < x then x
      else if is_zero x then zero_of (negative x \<and> negative y)
      else x)"

text \<open>\<open>Math.sqrt\<close>: the square root of a positive finite number, correctly rounded.\<close>

fun Math_sqrt :: "number \<Rightarrow> number" where
  "Math_sqrt (Fin r) = (if r < 0 then NaN else if r = 0 then Fin 0 else round64 (sqrt r))"
| "Math_sqrt NZero = NZero"
| "Math_sqrt PInf = PInf"
| "Math_sqrt x = NaN"

text \<open>
  For \<open>Math.exp\<close>, \<open>Math.log\<close> and \<open>Math.pow\<close> ECMAScript fixes the results at the
  special arguments and leaves the result at every other argument to the engine
  (an implementation-approximated value). The engine's part is a parameter: \<open>approx\<close>
  gives the result at a finite argument that is not one of the special ones.
  \<open>Math_pow\<close> is for a whole-number exponent, the only use the calculators make of it.
\<close>

fun Math_exp :: "(real \<Rightarrow> number) \<Rightarrow> number \<Rightarrow> number" where
  "Math_exp approx (Fin r) = (if r = 0 then Fin 1 else approx r)"
| "Math_exp approx NZero = Fin 1"
| "Math_exp approx PInf = PInf"
| "Math_exp approx NInf = Fin 0"
| "Math_exp approx NaN = NaN"

fun Math_log :: "(real \<Rightarrow> number) \<Rightarrow> number \<Rightarrow> number" where
  "Math_log approx (Fin r) =
     (if r < 0 then NaN else if r = 0 then NInf else if r = 1 then Fin 0 else approx r)"
| "Math_log approx NZero = NInf"
| "Math_log approx PInf = PInf"
| "Math_log approx x = NaN"

definition Math_pow :: "(real \<Rightarrow> nat \<Rightarrow> number) \<Rightarrow> number \<Rightarrow> nat \<Rightarrow> number" where
  "Math_pow approx x k =
     (if k = 0 then Fin 1
      else case x of
        Fin r \<Rightarrow> (if r = 0 then Fin 0 else approx r k)
      | NZero \<Rightarrow> (if odd k then NZero else Fin 0)
      | PInf \<Rightarrow> PInf
      | NInf \<Rightarrow> (if odd k then NInf else PInf)
      | NaN \<Rightarrow> NaN)"

section \<open>Rendering numbers as text\<close>

text \<open>
  Strings are byte lists holding the UTF-8 encoding of the source's text; the few
  characters outside ASCII are written as their bytes.
\<close>

definition newline :: string where
  "newline = [CHR 0x0A]"

definition double_quote :: string where
  "double_quote = [CHR 0x22]"

definition single_quote :: string where
  "single_quote = [CHR 0x27]"

text \<open>The infinity sign U+221E, the Greek letter chi U+03C7, superscript two U+00B2 and
  the square root sign U+221A.\<close>

definition infinity_sign :: string where
  "infinity_sign = [CHR 0xE2, CHR 0x88, CHR 0x9E]"

definition chi_letter :: string where
  "chi_letter = [CHR 0xCF, CHR 0x87]"

definition superscript_two :: string where
  "superscript_two = [CHR 0xC2, CHR 0xB2]"

definition sqrt_sign :: string where
  "sqrt_sign = [CHR 0xE2, CHR 0x88, CHR 0x9A]"

definition digit_char :: "nat \<Rightarrow> char" where
  "digit_char k = ''0123456789'' ! k"

function decimal :: "nat \<Rightarrow> string" where
  "decimal k = (if k < 10 then [digit_char k] else decimal (k div 10) @ [digit_char (k mod 10)])"
  by pat_completeness auto
termination
  by (relation "measure (\<lambda>k. k)") auto

declare decimal.simps [simp del]

text \<open>
  \<open>Number::toString\<close> of ECMAScript. A finite integer below \<open>10^21\<close> prints as its
  decimal digits. For every other finite value the language prints the shortest digit
  string that reads back as the same double; that string depends on the double's bits,
  so it is the parameter \<open>digits\<close>, applied to the absolute value.
\<close>

definition positive_toString :: "(real \<Rightarrow> string) \<Rightarrow> real \<Rightarrow> string" where
  "positive_toString digits r =
     (if r = of_int \<lfloor>r\<rfloor> \<and> r < 10 ^ 21 then decimal (nat \<lfloor>r\<rfloor>) else digits r)"

definition Number_toString :: "(real \<Rightarrow> string) \<Rightarrow> number \<Rightarrow> string" where
  "Number_toString digits x =
     (case x of
        NaN \<Rightarrow> ''NaN''
      | PInf \<Rightarrow> ''Infinity''
      | NInf \<Rightarrow> ''-Infinity''
      | NZero \<Rightarrow> ''0''
      | Fin r \<Rightarrow>
          (if r = 0 then ''0''
           else if r < 0 then ''-'' @ positive_toString digits (- r)
           else positive_toString digits r))"

text \<open>
  \<open>Number.prototype.toFixed\<close> of ECMAScript, for a digit count \<open>f\<close> between 0 and 100
  (the calculators pass the literals 2, 3 and 4). A value that is not finite prints as
  \<open>Number::toString\<close> prints it. Otherwise the integer \<open>n\<close> nearest to \<open>x * 10^f\<close> is
  taken, the larger one on a tie, and printed with a point before its last \<open>f\<close> digits
  (\<open>fixed_digits\<close>); \<open>x\<close> is the exact value of the double. The negative zero is not
  below 0 and prints without a sign.
\<close>

definition fixed_digits :: "real \<Rightarrow> nat \<Rightarrow> string" where
  "fixed_digits r f =
     (let n = nat \<lfloor>r * 10 ^ f + 1 / 2\<rfloor>;
          m = decimal n
      in if f = 0 then m
         else
           let m' = (if length m \<le> f
                     then replicate (f + 1 - length m) (CHR ''0'') @ m else m);
               k = length m'
           in take (k - f) m' @ ''.'' @ drop (k - f) m')"

definition toFixed :: "(real \<Rightarrow> string) \<Rightarrow> number \<Rightarrow> nat \<Rightarrow> string" where
  "toFixed digits x f =
     (case x of
        NaN \<Rightarrow> ''NaN''
      | PInf \<Rightarrow> ''Infinity''
      | NInf \<Rightarrow> ''-Infinity''
      | NZero \<Rightarrow> fixed_digits 0 f
      | Fin r \<Rightarrow>
          (let s = (if r < 0 then ''-'' else []);
               r' = \<bar>r\<bar>
           in if 10 ^ 21 \<le> r' then s @ positive_toString digits r'
              else s @ fixed_digits r' f))"

section \<open>Calculator definitions\<close>

text \<open>
  The result record of a calculator: \<open>results\<close> is the ordered list of labelled entries,
  each value a text or a number, \<open>isMain\<close> optional; \<open>rCode\<close> and \<open>formula\<close> are
  optional. The fields \<open>value\<close> and \<open>interpretation\<close> of the source are named \<open>val\<close>
  and \<open>interpretation_text\<close> here, the source's names being reserved words of Isabelle.
\<close>

datatype entry_value = Text string | Num number

record entry =
  label :: string
  val :: entry_value
  isMain :: "bool option"

record calc_result =
  results :: "entry list"
  interpretation_text :: string
  rCode :: "string option"
  formula :: "string option"

text \<open>
  The module \<open>confidenceIntervals/utils\<close> (imported as \<open>ciUtils\<close>) is not part of the
  sources at hand. Its functions are parameters of the model, together with the parts of
  the language that belong to the engine: the digit printer of \<open>Number::toString\<close> and
  the approximations behind \<open>Math.exp\<close>, \<open>Math.log\<close> and \<open>Math.pow\<close>.
\<close>

record tp_value =
  twoSided :: number

record externals =
  number_digits :: "real \<Rightarrow> string"
  approx_exp :: "real \<Rightarrow> number"
  approx_log :: "real \<Rightarrow> number"
  approx_pow :: "real \<Rightarrow> nat \<Rightarrow> number"
  getZCritical :: "number \<Rightarrow> number"
  getTPValue :: "number \<Rightarrow> number \<Rightarrow> tp_value"
  getChiSqPValue :: "number \<Rightarrow> number \<Rightarrow> number"
  formatCI :: "number \<Rightarrow> number \<Rightarrow> number \<Rightarrow> string"

text \<open>
  The 2x2 table \<open>{a, b, c, d}\<close> that every calculator reads. The schema of each calculator
  is \<open>z.number().min(0)\<close> for the four cells: any number that is at least 0, whole or not.
\<close>

record table =
  cell_a :: number
  cell_b :: number
  cell_c :: number
  cell_d :: number

subsection \<open>Chi-square test: \<open>calculators/chiSquare.ts\<close>\<close>

record chi_input = table +
  yates :: bool

text \<open>The locals \<open>numerator\<close>, \<open>correctedNum\<close> and \<open>chi2\<close> of \<open>compute\<close>.\<close>

definition chiSquare_numerator :: "chi_input \<Rightarrow> number" where
  "chiSquare_numerator data =
     (let a = cell_a data; b = cell_b data; c = cell_c data; d = cell_d data
      in Math_abs (a * d - b * c))"

definition chiSquare_correctedNum :: "chi_input \<Rightarrow> number" where
  "chiSquare_correctedNum data =
     (let a = cell_a data; b = cell_b data; c = cell_c data; d = cell_d data;
          n = a + b + c + d;
          numerator = chiSquare_numerator data
      in if yates data then Math_max (Fin 0) (numerator - n / Fin 2) else numerator)"

definition chiSquare_chi2 :: "externals \<Rightarrow> chi_input \<Rightarrow> number" where
  "chiSquare_chi2 env data =
     (let a = cell_a data; b = cell_b data; c = cell_c data; d = cell_d data;
          n = a + b + c + d;
          row1 = a + b;
          row2 = c + d;
          col1 = a + c;
          col2 = b + d;
          correctedNum = chiSquare_correctedNum data
      in (n * Math_pow (approx_pow env) correctedNum 2) / (row1 * row2 * col1 * col2))"

definition formatP :: "externals \<Rightarrow> number \<Rightarrow> string" where
  "formatP env p =
     (if p < literal (1 / 1000) then ''< 0.001'' else toFixed (number_digits env) p 4)"

definition chiSquare_rCode :: "externals \<Rightarrow> chi_input \<Rightarrow> string" where
  "chiSquare_rCode env data =
     (let str = Number_toString (number_digits env);
          a = cell_a data; b = cell_b data; c = cell_c data; d = cell_d data
      in ''# Create matrix table'' @ newline
         @ ''tab <- matrix(c('' @ str a @ '', '' @ str c @ '', '' @ str b @ '', '' @ str d
         @ ''), nrow = 2)'' @ newline
         @ ''colnames(tab) <- c('' @ double_quote @ ''Exposure+'' @ double_quote @ '', ''
         @ double_quote @ ''Exposure-'' @ double_quote @ '')'' @ newline
         @ ''rownames(tab) <- c('' @ double_quote @ ''Outcome+'' @ double_quote @ '', ''
         @ double_quote @ ''Outcome-'' @ double_quote @ '')'' @ newline @ newline
         @ ''# Chi-Square Test'' @ newline
         @ ''chisq.test(tab, correct = '' @ (if yates data then ''TRUE'' else ''FALSE'')
         @ '')'' @ newline @ newline
         @ ''# Fisher'' @ single_quote @ ''s Exact Test (Recommended for small cells)''
         @ newline
         @ ''fisher.test(tab)'')"

definition zero_totals_result :: calc_result where
  "zero_totals_result =
     \<lparr>results = [],
      interpretation_text = ''Table contains a row or column with zero totals.'',
      rCode = None, formula = None\<rparr>"

definition chiSquare_compute :: "externals \<Rightarrow> chi_input \<Rightarrow> calc_result" where
  "chiSquare_compute env data =
     (let a = cell_a data; b = cell_b data; c = cell_c data; d = cell_d data;
          row1 = a + b;
          row2 = c + d;
          col1 = a + c;
          col2 = b + d
      in if strict_eq row1 (Fin 0) \<or> strict_eq row2 (Fin 0)
            \<or> strict_eq col1 (Fin 0) \<or> strict_eq col2 (Fin 0)
         then zero_totals_result
         else
           let chi2 = chiSquare_chi2 env data;
               pValue = getChiSqPValue env chi2 (Fin 1)
           in \<lparr>results =
                  [\<lparr>label = ''Chi-Square ('' @ chi_letter @ superscript_two @ '')'',
                    val = Text (toFixed (number_digits env) chi2 4), isMain = Some True\<rparr>,
                   \<lparr>label = ''p-value'', val = Text (formatP env pValue),
                    isMain = Some True\<rparr>,
                   \<lparr>label = ''Degrees of Freedom'', val = Num (Fin 1), isMain = None\<rparr>,
                   \<lparr>label = ''Yates Correction'',
                    val = Text (if yates data then ''Applied'' else ''Not Applied''),
                    isMain = None\<rparr>],
                interpretation_text =
                  ''The Chi-square value is '' @ toFixed (number_digits env) chi2 3
                  @ '' (p = '' @ formatP env pValue @ '').'',
                rCode = Some (chiSquare_rCode env data),
                formula =
                  Some (chi_letter @ superscript_two @ '' = n(|ad-bc| - c)'' @ superscript_two
                        @ '' / (R1*R2*C1*C2)'')\<rparr>)"

subsection \<open>Relative risk and odds ratio: \<open>epiMeasures\<close>\<close>

text \<open>The locals \<open>rr\<close> and \<open>or\<close> of \<open>compute\<close>.\<close>

definition epiMeasures_rr :: "table \<Rightarrow> number" where
  "epiMeasures_rr data =
     (let a = cell_a data; b = cell_b data; c = cell_c data; d = cell_d data;
          n1 = a + b; n2 = c + d;
          r1 = a / n1; r2 = c / n2
      in r1 / r2)"

definition epiMeasures_or :: "table \<Rightarrow> number" where
  "epiMeasures_or data =
     (let a = cell_a data; b = cell_b data; c = cell_c data; d = cell_d data
      in (a * d) / (b * c))"

definition epiMeasures_rCode :: "externals \<Rightarrow> table \<Rightarrow> string" where
  "epiMeasures_rCode env data =
     (let str = Number_toString (number_digits env);
          a = cell_a data; b = cell_b data; c = cell_c data; d = cell_d data
      in ''# Create 2x2 table matrix'' @ newline
         @ ''tab <- matrix(c('' @ str a @ '', '' @ str c @ '', '' @ str b @ '', '' @ str d
         @ ''), nrow = 2)'' @ newline
         @ ''dimnames(tab) <- list(Disease = c('' @ double_quote @ ''Yes'' @ double_quote
         @ '', '' @ double_quote @ ''No'' @ double_quote @ ''), Exposure = c(''
         @ double_quote @ ''Yes'' @ double_quote @ '', '' @ double_quote @ ''No''
         @ double_quote @ ''))'' @ newline @ newline
         @ ''# Association Tests'' @ newline
         @ ''chisq.test(tab)'' @ newline
         @ ''fisher.test(tab)'' @ newline @ newline
         @ ''# For Relative Risk and Odds Ratio (Requires '' @ single_quote @ ''epiR''
         @ single_quote @ '' package)'' @ newline
         @ ''# install.packages('' @ double_quote @ ''epiR'' @ double_quote @ '')'' @ newline
         @ ''library(epiR)'' @ newline
         @ ''epi.2by2(tab, method = '' @ double_quote @ ''cohort.count'' @ double_quote
         @ '')'')"

definition epiMeasures_compute :: "externals \<Rightarrow> table \<Rightarrow> calc_result" where
  "epiMeasures_compute env data =
     (let rr = epiMeasures_rr data;
          or = epiMeasures_or data;
          fixed = toFixed (number_digits env)
      in \<lparr>results =
             [\<lparr>label = ''Relative Risk (RR)'', val = Text (fixed rr 3), isMain = Some True\<rparr>,
              \<lparr>label = ''Odds Ratio (OR)'', val = Text (fixed or 3), isMain = Some True\<rparr>],
           interpretation_text =
             ''RR is '' @ fixed rr 2 @ '', OR is '' @ fixed or 2 @ ''.'',
           rCode = Some (epiMeasures_rCode env data),
           formula =
             Some (''RR = [a/(a+b)] / [c/(c+d)]'' @ newline @ ''OR = (a*d) / (b*c)'')\<rparr>)"

subsection \<open>Epi 2x2 CI toolkit: \<open>ciEpi\<close>\<close>

record ci_input = table +
  conf :: number

definition getLogP :: "externals \<Rightarrow> number \<Rightarrow> number \<Rightarrow> number" where
  "getLogP env est seLog =
     (if est \<le> Fin 0 \<or> \<not> isFinite est then Fin 1
      else
        let zStat = Math_abs (Math_log (approx_log env) est) / seLog
        in twoSided (getTPValue env zStat (Fin 1000)))"

text \<open>The locals of \<open>compute\<close>, one definition each, in the order of the source.\<close>

definition ciEpi_zCrit :: "externals \<Rightarrow> ci_input \<Rightarrow> number" where
  "ciEpi_zCrit env data = getZCritical env (conf data)"

definition ciEpi_orPoint :: "ci_input \<Rightarrow> number" where
  "ciEpi_orPoint data =
     (let a = cell_a data; b = cell_b data; c = cell_c data; d = cell_d data
      in if strict_ne b (Fin 0) \<and> strict_ne c (Fin 0) then (a * d) / (b * c) else PInf)"

definition ciEpi_orCorrected :: "ci_input \<Rightarrow> number" where
  "ciEpi_orCorrected data =
     (let ac = cell_a data + Fin (1 / 2); bc = cell_b data + Fin (1 / 2);
          cc = cell_c data + Fin (1 / 2); dc = cell_d data + Fin (1 / 2)
      in (ac * dc) / (bc * cc))"

definition ciEpi_seLogOrWoolf :: "ci_input \<Rightarrow> number" where
  "ciEpi_seLogOrWoolf data =
     (let ac = cell_a data + Fin (1 / 2); bc = cell_b data + Fin (1 / 2);
          cc = cell_c data + Fin (1 / 2); dc = cell_d data + Fin (1 / 2)
      in Math_sqrt (Fin 1 / ac + Fin 1 / bc + Fin 1 / cc + Fin 1 / dc))"

definition ciEpi_woolfLower :: "externals \<Rightarrow> ci_input \<Rightarrow> number" where
  "ciEpi_woolfLower env data =
     Math_exp (approx_exp env)
       (Math_log (approx_log env) (ciEpi_orCorrected data)
        - ciEpi_zCrit env data * ciEpi_seLogOrWoolf data)"

definition ciEpi_woolfUpper :: "externals \<Rightarrow> ci_input \<Rightarrow> number" where
  "ciEpi_woolfUpper env data =
     Math_exp (approx_exp env)
       (Math_log (approx_log env) (ciEpi_orCorrected data)
        + ciEpi_zCrit env data * ciEpi_seLogOrWoolf data)"

definition ciEpi_woolfP :: "externals \<Rightarrow> ci_input \<Rightarrow> number" where
  "ciEpi_woolfP env data = getLogP env (ciEpi_orCorrected data) (ciEpi_seLogOrWoolf data)"

definition ciEpi_seExact :: "ci_input \<Rightarrow> number" where
  "ciEpi_seExact data =
     (let a = cell_a data; b = cell_b data; c = cell_c data; d = cell_d data
      in Math_sqrt (Fin 1 / a + Fin 1 / b + Fin 1 / c + Fin 1 / d))"

definition ciEpi_exactLower :: "externals \<Rightarrow> ci_input \<Rightarrow> number" where
  "ciEpi_exactLower env data =
     (let a = cell_a data; b = cell_b data; c = cell_c data; d = cell_d data
      in if strict_ne a (Fin 0) \<and> strict_ne d (Fin 0) \<and> strict_ne b (Fin 0)
            \<and> strict_ne c (Fin 0)
         then ciEpi_orPoint data / Math_exp (approx_exp env) (ciEpi_zCrit env data * ciEpi_seExact data)
         else ciEpi_woolfLower env data)"

definition ciEpi_exactUpper :: "externals \<Rightarrow> ci_input \<Rightarrow> number" where
  "ciEpi_exactUpper env data =
     (let a = cell_a data; b = cell_b data; c = cell_c data; d = cell_d data
      in if strict_ne a (Fin 0) \<and> strict_ne d (Fin 0) \<and> strict_ne b (Fin 0)
            \<and> strict_ne c (Fin 0)
         then ciEpi_orPoint data * Math_exp (approx_exp env) (ciEpi_zCrit env data * ciEpi_seExact data)
         else ciEpi_woolfUpper env data)"

definition ciEpi_r1 :: "ci_input \<Rightarrow> number" where
  "ciEpi_r1 data = or_else (cell_a data / (cell_a data + cell_b data)) (Fin 0)"

definition ciEpi_r2 :: "ci_input \<Rightarrow> number" where
  "ciEpi_r2 data = or_else (cell_c data / (cell_c data + cell_d data)) (Fin 0)"

definition ciEpi_rr :: "ci_input \<Rightarrow> number" where
  "ciEpi_rr data =
     (let r1 = ciEpi_r1 data; r2 = ciEpi_r2 data
      in if strict_eq r2 (Fin 0) then (if Fin 0 < r1 then PInf else Fin 1) else r1 / r2)"

definition ciEpi_rrSELog :: "ci_input \<Rightarrow> number" where
  "ciEpi_rrSELog data =
     (let ac = cell_a data + Fin (1 / 2); bc = cell_b data + Fin (1 / 2);
          cc = cell_c data + Fin (1 / 2); dc = cell_d data + Fin (1 / 2)
      in Math_sqrt ((Fin 1 / ac - Fin 1 / (ac + bc)) + (Fin 1 / cc - Fin 1 / (cc + dc))))"

definition ciEpi_rrLower :: "externals \<Rightarrow> ci_input \<Rightarrow> number" where
  "ciEpi_rrLower env data =
     (let rr = ciEpi_rr data
      in if Fin 0 < rr \<and> isFinite rr
         then Math_exp (approx_exp env)
                (Math_log (approx_log env) rr - ciEpi_zCrit env data * ciEpi_rrSELog data)
         else Fin 0)"

definition ciEpi_rrUpper :: "externals \<Rightarrow> ci_input \<Rightarrow> number" where
  "ciEpi_rrUpper env data =
     (let rr = ciEpi_rr data
      in if Fin 0 < rr \<and> isFinite rr
         then Math_exp (approx_exp env)
                (Math_log (approx_log env) rr + ciEpi_zCrit env data * ciEpi_rrSELog data)
         else (if Fin 0 < rr then PInf else Fin 0))"

definition ciEpi_rrP :: "externals \<Rightarrow> ci_input \<Rightarrow> number" where
  "ciEpi_rrP env data = getLogP env (ciEpi_rr data) (ciEpi_rrSELog data)"

definition ciEpi_rd :: "ci_input \<Rightarrow> number" where
  "ciEpi_rd data = ciEpi_r1 data - ciEpi_r2 data"

definition ciEpi_seRd :: "ci_input \<Rightarrow> number" where
  "ciEpi_seRd data =
     (let a = cell_a data; b = cell_b data; c = cell_c data; d = cell_d data;
          r1 = ciEpi_r1 data; r2 = ciEpi_r2 data
      in Math_sqrt ((r1 * (Fin 1 - r1)) / (or_else (a + b) (Fin 1))
                    + (r2 * (Fin 1 - r2)) / (or_else (c + d) (Fin 1))))"

definition ciEpi_rdLower :: "externals \<Rightarrow> ci_input \<Rightarrow> number" where
  "ciEpi_rdLower env data = ciEpi_rd data - ciEpi_zCrit env data * ciEpi_seRd data"

definition ciEpi_rdUpper :: "externals \<Rightarrow> ci_input \<Rightarrow> number" where
  "ciEpi_rdUpper env data = ciEpi_rd data + ciEpi_zCrit env data * ciEpi_seRd data"

definition ciEpi_rdP :: "externals \<Rightarrow> ci_input \<Rightarrow> number" where
  "ciEpi_rdP env data =
     twoSided (getTPValue env
       (if strict_eq (ciEpi_seRd data) (Fin 0) then Fin 0 else ciEpi_rd data / ciEpi_seRd data)
       (Fin 1000))"

text \<open>The two formatters \<open>f\<close> and \<open>fP\<close> of \<open>compute\<close>.\<close>

definition ciEpi_f :: "externals \<Rightarrow> number \<Rightarrow> string" where
  "ciEpi_f env n = (if isFinite n then toFixed (number_digits env) n 4 else infinity_sign)"

definition ciEpi_fP :: "externals \<Rightarrow> number \<Rightarrow> string" where
  "ciEpi_fP env p =
     (if p < literal (1 / 1000) then ''< 0.001'' else toFixed (number_digits env) p 4)"

definition ciEpi_rCode :: "externals \<Rightarrow> ci_input \<Rightarrow> string" where
  "ciEpi_rCode env data =
     (let str = Number_toString (number_digits env);
          a = cell_a data; b = cell_b data; c = cell_c data; d = cell_d data
      in ''# Comprehensive 2x2 Analysis'' @ newline
         @ ''tab <- matrix(c('' @ str a @ '', '' @ str c @ '', '' @ str b @ '', '' @ str d
         @ ''), nrow = 2)'' @ newline @ newline
         @ ''# Fisher and Chi-Sq'' @ newline
         @ ''fisher.test(tab)'' @ newline
         @ ''chisq.test(tab)'' @ newline @ newline
         @ ''# epiR for OR/RR/RD'' @ newline
         @ ''# library(epiR)'' @ newline
         @ ''# epi.2by2(tab, method = '' @ double_quote @ ''cohort.count'' @ double_quote
         @ '')'')"

definition ciEpi_compute :: "externals \<Rightarrow> ci_input \<Rightarrow> calc_result" where
  "ciEpi_compute env data =
     (let f = ciEpi_f env; fP = ciEpi_fP env; ci = formatCI env
      in \<lparr>results =
             [\<lparr>label = ''Odds Ratio (Point)'', val = Text (f (ciEpi_orPoint data)),
               isMain = Some True\<rparr>,
              \<lparr>label = ''Approximate Exact CI (Fisher-like)'',
               val = Text (ci (ciEpi_exactLower env data) (ciEpi_exactUpper env data) (Fin 4)),
               isMain = Some True\<rparr>,
              \<lparr>label = ''Woolf (Wald) CI'',
               val = Text (ci (ciEpi_woolfLower env data) (ciEpi_woolfUpper env data) (Fin 4)),
               isMain = None\<rparr>,
              \<lparr>label = ''p-value (Association)'', val = Text (fP (ciEpi_woolfP env data)),
               isMain = Some True\<rparr>,
              \<lparr>label = ''Relative Risk (RR)'', val = Text (f (ciEpi_rr data)),
               isMain = None\<rparr>,
              \<lparr>label = ''RR 95% CI (Katz)'',
               val = Text (ci (ciEpi_rrLower env data) (ciEpi_rrUpper env data) (Fin 4)),
               isMain = None\<rparr>,
              \<lparr>label = ''Risk Difference (RD)'', val = Text (f (ciEpi_rd data)),
               isMain = None\<rparr>,
              \<lparr>label = ''RD 95% CI'',
               val = Text (ci (ciEpi_rdLower env data) (ciEpi_rdUpper env data) (Fin 4)),
               isMain = None\<rparr>],
           interpretation_text =
             ''The point Odds Ratio is '' @ f (ciEpi_orPoint data)
             @ '' with association p='' @ fP (ciEpi_woolfP env data) @ ''.'',
           rCode = Some (ciEpi_rCode env data),
           formula =
             Some (''Woolf: SE(ln OR) = '' @ sqrt_sign @ ''[1/a + 1/b + 1/c + 1/d]'')\<rparr>)"

subsection \<open>Risk ratio and odds ratio calculators: \<open>riskRatioCalc\<close>, \<open>oddsRatioCalc\<close>\<close>

text \<open>
  The two calculators come in two variants with the same \<open>compute\<close> bodies. One declares
  its input as \<open>{a, b, c, d}\<close>, the other as \<open>{Exposed_cases, Unexposed_cases,
  Exposed_control, Unexposed_control}\<close>. Type annotations do not exist at run time, so
  the input is modelled as what \<open>compute\<close> receives: an object, a finite map from
  property names to numbers. Reading a property the object does not have gives
  \<open>undefined\<close>; arithmetic converts \<open>undefined\<close> to NaN, and a template literal prints it
  as the text \<open>undefined\<close>.
\<close>

type_synonym object = "string \<rightharpoonup> number"

datatype property = Undefined | Defined number

definition get_property :: "object \<Rightarrow> string \<Rightarrow> property" where
  "get_property data k = (case data k of None \<Rightarrow> Undefined | Some x \<Rightarrow> Defined x)"

fun ToNumber :: "property \<Rightarrow> number" where
  "ToNumber Undefined = NaN"
| "ToNumber (Defined x) = x"

fun ToString :: "(real \<Rightarrow> string) \<Rightarrow> property \<Rightarrow> string" where
  "ToString digits Undefined = ''undefined''"
| "ToString digits (Defined x) = Number_toString digits x"

text \<open>
  The helpers \<open>computeRR\<close>, \<open>computeOR\<close> and \<open>formatPercent\<close> come from the module
  \<open>epidemiology/utils\<close>, which is not part of the sources at hand: they are parameters.
\<close>

record estimate =
  est_value :: number
  est_lower :: number
  est_upper :: number

record epi_utils =
  computeRR :: "object \<Rightarrow> estimate"
  computeOR :: "object \<Rightarrow> estimate"
  formatPercent :: "number \<Rightarrow> string"

definition riskRatioCalc_rCode :: "externals \<Rightarrow> object \<Rightarrow> string" where
  "riskRatioCalc_rCode env data =
     (let str = (\<lambda>k. ToString (number_digits env) (get_property data k))
      in ''# Create 2x2 matrix'' @ newline
         @ ''tab <- matrix(c('' @ str ''a'' @ '', '' @ str ''c'' @ '', '' @ str ''b'' @ '', ''
         @ str ''d'' @ ''), nrow = 2)'' @ newline @ newline
         @ ''# install.packages('' @ double_quote @ ''epiR'' @ double_quote @ '')'' @ newline
         @ ''library(epiR)'' @ newline
         @ ''epi.2by2(tab, method = '' @ double_quote @ ''cohort.count'' @ double_quote
         @ '', conf.level = 0.95)'')"

definition riskRatioCalc_compute :: "externals \<Rightarrow> epi_utils \<Rightarrow> object \<Rightarrow> calc_result" where
  "riskRatioCalc_compute env utils data =
     (let res = computeRR utils data;
          rCode = riskRatioCalc_rCode env data;
          a = ToNumber (get_property data ''a''); b = ToNumber (get_property data ''b'');
          c = ToNumber (get_property data ''c''); d = ToNumber (get_property data ''d'');
          fixed = toFixed (number_digits env)
      in \<lparr>results =
             [\<lparr>label = ''Risk Ratio (RR)'', val = Text (fixed (est_value res) 3),
               isMain = Some True\<rparr>,
              \<lparr>label = ''95% CI (Log Method)'',
               val = Text (formatCI env (est_lower res) (est_upper res) (Fin 3)),
               isMain = Some True\<rparr>,
              \<lparr>label = ''Exposed Risk'', val = Text (formatPercent utils (a / (a + b))),
               isMain = None\<rparr>,
              \<lparr>label = ''Unexposed Risk'', val = Text (formatPercent utils (c / (c + d))),
               isMain = None\<rparr>],
           interpretation_text =
             ''Exposed group has '' @ (if Fin 1 < est_value res then ''higher'' else ''lower'')
             @ '' risk (RR='' @ fixed (est_value res) 2 @ '').'',
           rCode = Some rCode,
           formula = Some ''RR = [a / (a+b)] / [c / (c+d)]''\<rparr>)"

definition oddsRatioCalc_rCode :: "externals \<Rightarrow> object \<Rightarrow> string" where
  "oddsRatioCalc_rCode env data =
     (let str = (\<lambda>k. ToString (number_digits env) (get_property data k))
      in ''# Odds Ratio via Fisher Test'' @ newline
         @ ''tab <- matrix(c('' @ str ''a'' @ '', '' @ str ''c'' @ '', '' @ str ''b'' @ '', ''
         @ str ''d'' @ ''), nrow = 2)'' @ newline
         @ ''fisher.test(tab, conf.level = 0.95)'' @ newline @ newline
         @ ''# Woolf method via '' @ single_quote @ ''epiR'' @ single_quote @ newline
         @ ''# library(epiR); epi.2by2(tab, method = '' @ double_quote @ ''case-control''
         @ double_quote @ '')'')"

definition oddsRatioCalc_compute :: "externals \<Rightarrow> epi_utils \<Rightarrow> object \<Rightarrow> calc_result" where
  "oddsRatioCalc_compute env utils data =
     (let res = computeOR utils data;
          rCode = oddsRatioCalc_rCode env data;
          a = ToNumber (get_property data ''a''); b = ToNumber (get_property data ''b'');
          c = ToNumber (get_property data ''c''); d = ToNumber (get_property data ''d'');
          fixed = toFixed (number_digits env)
      in \<lparr>results =
             [\<lparr>label = ''Odds Ratio (OR)'', val = Text (fixed (est_value res) 3),
               isMain = Some True\<rparr>,
              \<lparr>label = ''95% CI (Woolf)'',
               val = Text (formatCI env (est_lower res) (est_upper res) (Fin 3)),
               isMain = Some True\<rparr>,
              \<lparr>label = ''Exposed Odds'', val = Text (fixed (a / b) 3), isMain = None\<rparr>,
              \<lparr>label = ''Unexposed Odds'', val = Text (fixed (c / d) 3), isMain = None\<rparr>],
           interpretation_text = ''The odds ratio is '' @ fixed (est_value res) 3 @ ''.'',
           rCode = Some rCode,
           formula = Some ''OR = (a * d) / (b * c)''\<rparr>)"

section \<open>Inputs for the statements\<close>

text \<open>Tables whose four cells are finite numbers, given by their values.\<close>

definition chi_counts :: "real \<Rightarrow> real \<Rightarrow> real \<Rightarrow> real \<Rightarrow> bool \<Rightarrow> chi_input" where
  "chi_counts a b c d y =
     \<lparr>cell_a = Fin a, cell_b = Fin b, cell_c = Fin c, cell_d = Fin d, yates = y\<rparr>"

definition epi_counts :: "real \<Rightarrow> real \<Rightarrow> real \<Rightarrow> real \<Rightarrow> table" where
  "epi_counts a b c d = \<lparr>cell_a = Fin a, cell_b = Fin b, cell_c = Fin c, cell_d = Fin d\<rparr>"

definition ci_counts :: "real \<Rightarrow> real \<Rightarrow> real \<Rightarrow> real \<Rightarrow> number \<Rightarrow> ci_input" where
  "ci_counts a b c d cf =
     \<lparr>cell_a = Fin a, cell_b = Fin b, cell_c = Fin c, cell_d = Fin d, conf = cf\<rparr>"

text \<open>
  One instance of the external functions, for evaluating \<open>compute\<close> at concrete inputs:
  \<open>Math.exp\<close>, \<open>Math.log\<close> and \<open>Math.pow\<close> are correctly rounded, the critical value is
  the constant \<open>z\<close>, every p-value is 1, and the two text helpers return the empty text.
\<close>

definition sample_externals :: "real \<Rightarrow> externals" where
  "sample_externals z =
     \<lparr>number_digits = (\<lambda>r. []),
      approx_exp = (\<lambda>t. round64 (exp t)),
      approx_log = (\<lambda>x. round64 (ln x)),
      approx_pow = (\<lambda>x k. round64 (x ^ k)),
      getZCritical = (\<lambda>cf. Fin z),
      getTPValue = (\<lambda>s df. \<lparr>twoSided = Fin 1\<rparr>),
      getChiSqPValue = (\<lambda>s df. Fin 1),
      formatCI = (\<lambda>lo hi k. [])\<rparr>"

text \<open>
  An input of the shape the second variant of \<open>riskRatioCalc\<close> and \<open>oddsRatioCalc\<close>
  declares, and one instance of the helpers of \<open>epidemiology/utils\<close>: both estimates are
  the constant 1 and a percentage is printed with one decimal.
\<close>

definition declared_keys :: "string set" where
  "declared_keys =
     {''Exposed_cases'', ''Unexposed_cases'', ''Exposed_control'', ''Unexposed_control''}"

definition declared_input :: "number \<Rightarrow> number \<Rightarrow> number \<Rightarrow> number \<Rightarrow> object" where
  "declared_input ec uc ex ux =
     [''Exposed_cases'' \<mapsto> ec, ''Unexposed_cases'' \<mapsto> uc,
      ''Exposed_control'' \<mapsto> ex, ''Unexposed_control'' \<mapsto> ux]"

definition sample_epi_utils :: epi_utils where
  "sample_epi_utils =
     \<lparr>computeRR = (\<lambda>data. \<lparr>est_value = Fin 1, est_lower = Fin 1, est_upper = Fin 1\<rparr>),
      computeOR = (\<lambda>data. \<lparr>est_value = Fin 1, est_lower = Fin 1, est_upper = Fin 1\<rparr>),
      formatPercent = (\<lambda>x. toFixed (\<lambda>r. []) (x * Fin 100) 1 @ ''%'')\<rparr>"

section \<open>Rounding to the nearest double\<close>

lemma round_even_error: "\<bar>of_int (round_even q) - q\<bar> \<le> 1 / 2"
proof -
  define f where "f = \<lfloor>q\<rfloor>"
  define r where "r = q - of_int f"
  have r: "0 \<le> r" "r < 1"
    unfolding r_def f_def by linarith+
  have q: "q = of_int f + r"
    by (simp add: r_def)
  have "round_even q = (if r < 1 / 2 then f else if 1 / 2 < r then f + 1
      else if even f then f else f + 1)"
    by (simp add: round_even_def Let_def f_def r_def)
  then consider "round_even q = f" "r \<le> 1 / 2" | "round_even q = f + 1" "1 / 2 \<le> r"
    by (auto split: if_splits)
  then show ?thesis
  proof cases
    case 1
    then show ?thesis using r q by simp
  next
    case 2
    then show ?thesis using r q by simp
  qed
qed

lemma round_even_unique:
  assumes "\<bar>of_int k - q\<bar> < 1 / 2"
  shows "round_even q = k"
proof -
  have "\<bar>real_of_int (round_even q) - real_of_int k\<bar> < 1"
    using round_even_error [of q] assms by linarith
  then have "\<bar>real_of_int (round_even q - k)\<bar> < 1"
    by simp
  then have "\<bar>round_even q - k\<bar> < 1"
    by linarith
  then show ?thesis
    by linarith
qed

lemma round_even_of_int [simp]: "round_even (of_int k) = k"
  by (rule round_even_unique) simp

lemma ulp_exponent_ge: "- 1074 \<le> ulp_exponent x"
  by (simp add: ulp_exponent_def)

lemma ulp_exponent_bounds:
  assumes "x \<noteq> 0"
  shows "\<bar>x\<bar> < 2 powi (ulp_exponent x + 53)"
    and "- 1074 < ulp_exponent x \<Longrightarrow> 2 powi (ulp_exponent x + 52) \<le> \<bar>x\<bar>"
proof -
  define k where "k = \<lfloor>log 2 \<bar>x\<bar>\<rfloor>"
  have pos: "0 < \<bar>x\<bar>"
    using assms by simp
  have "2 powr (of_int k) \<le> \<bar>x\<bar> \<and> \<bar>x\<bar> < 2 powr (of_int k + 1)"
    using floor_log_eq_powr_iff [OF pos, of 2 k] by (simp add: k_def)
  moreover have "(2::real) powr (of_int k) = 2 powi k"
    by (rule powr_real_of_int') simp_all
  moreover have "(2::real) powr (of_int k + 1) = 2 powi (k + 1)"
    using powr_real_of_int' [of "2::real" "k + 1"] by simp
  ultimately have k: "2 powi k \<le> \<bar>x\<bar>" "\<bar>x\<bar> < 2 powi (k + 1)"
    by simp_all
  have E: "ulp_exponent x = max (k - 52) (- 1074)"
    by (simp add: ulp_exponent_def k_def)
  have "(2::real) powi (k + 1) \<le> 2 powi (ulp_exponent x + 53)"
    by (rule power_int_increasing) (simp_all add: E)
  with k(2) show "\<bar>x\<bar> < 2 powi (ulp_exponent x + 53)"
    by linarith
  show "2 powi (ulp_exponent x + 52) \<le> \<bar>x\<bar>" if "- 1074 < ulp_exponent x"
  proof -
    from that have "ulp_exponent x + 52 = k"
      by (simp add: E max_def split: if_splits)
    with k(1) show ?thesis
      by simp
  qed
qed

lemma ulp_exponent_eq:
  assumes "2 powi k \<le> \<bar>x\<bar>" "\<bar>x\<bar> < 2 powi (k + 1)"
  shows "ulp_exponent x = max (k - 52) (- 1074)"
proof -
  have "(0::real) < 2 powi k"
    by simp
  with assms(1) have pos: "0 < \<bar>x\<bar>"
    by linarith
  have "(2::real) powr (of_int k) = 2 powi k"
    by (rule powr_real_of_int') simp_all
  moreover have "(2::real) powr (of_int k + 1) = 2 powi (k + 1)"
    using powr_real_of_int' [of "2::real" "k + 1"] by simp
  ultimately have "\<lfloor>log 2 \<bar>x\<bar>\<rfloor> = k"
    using floor_log_eq_powr_iff [OF pos, of 2 k] assms by simp
  then show ?thesis
    by (simp add: ulp_exponent_def)
qed


lemma rnd_val_zero [simp]: "rnd_val 0 = 0"
  by (simp add: rnd_val_def)

lemma representable_zero [simp]: "representable 0"
  unfolding representable_def by (rule exI [of _ 0], rule exI [of _ 0]) simp

lemma rnd_val_error:
  assumes "x \<noteq> 0"
  shows "\<bar>rnd_val x - x\<bar> \<le> 2 powi ulp_exponent x / 2"
proof -
  define u :: real where "u = 2 powi ulp_exponent x"
  have u: "0 < u"
    by (simp add: u_def)
  have "rnd_val x - x = (of_int (round_even (x / u)) - x / u) * u"
    using assms u by (simp add: rnd_val_def u_def field_simps)
  then have "\<bar>rnd_val x - x\<bar> = \<bar>of_int (round_even (x / u)) - x / u\<bar> * u"
    using u by (simp add: abs_mult)
  also have "\<dots> \<le> 1 / 2 * u"
    using round_even_error [of "x / u"] u by (intro mult_right_mono) simp_all
  finally show ?thesis
    by (simp add: u_def)
qed

lemma multiple_of_ulp:
  assumes "\<bar>m\<bar> < 2 ^ 53" "- 1074 \<le> e" "y = of_int m * 2 powi e" "x \<noteq> 0"
    and close: "\<bar>y - x\<bar> < 2 powi ulp_exponent x / 2"
  shows "\<exists>k :: int. y = of_int k * 2 powi ulp_exponent x"
proof (cases "ulp_exponent x \<le> e")
  case True
  define j where "j = nat (e - ulp_exponent x)"
  have "e = ulp_exponent x + int j"
    using True by (simp add: j_def)
  then have "(2::real) powi e = 2 powi ulp_exponent x * 2 ^ j"
    by (simp add: power_int_add)
  then have "y = of_int (m * 2 ^ j) * 2 powi ulp_exponent x"
    using assms(3) by simp
  then show ?thesis ..
next
  case False
  define E where "E = ulp_exponent x"
  from False assms(2) have E: "- 1074 < E" "e \<le> E - 1"
    by (simp_all add: E_def)
  have lower: "2 powi (E + 52) \<le> \<bar>x\<bar>"
    using ulp_exponent_bounds(2) [OF assms(4)] E(1) by (simp add: E_def)
  have half: "(2::real) powi E / 2 = 2 powi (E - 1)"
    by (simp add: power_int_diff)
  have big: "(2::real) powi (E + 52) = 2 ^ 53 * 2 powi (E - 1)"
  proof -
    have "(2::real) powi (E + 52) = 2 powi (E - 1 + 53)"
      by (rule arg_cong [of _ _ "\<lambda>n. 2 powi n"]) simp
    also have "\<dots> = 2 powi (E - 1) * 2 powi 53"
      by (rule power_int_add) simp
    finally show ?thesis
      by simp
  qed
  define w :: real where "w = 2 powi (E - 1)"
  define P :: real where "P = 2 ^ 53"
  have w: "0 < w"
    by (simp add: w_def)
  have "\<bar>m\<bar> + 1 \<le> 2 ^ 53"
    using assms(1) by linarith
  then have "real_of_int (\<bar>m\<bar> + 1) \<le> real_of_int (2 ^ 53)"
    by (simp only: of_int_le_iff)
  then have m: "real_of_int \<bar>m\<bar> \<le> P - 1"
    by (simp add: P_def)
  have e: "(2::real) powi e \<le> w"
    unfolding w_def by (rule power_int_increasing) (use E(2) in simp_all)
  have "real_of_int \<bar>m\<bar> * 2 powi e \<le> (P - 1) * w"
    using m e w by (intro mult_mono) simp_all
  moreover have "\<bar>y\<bar> = real_of_int \<bar>m\<bar> * 2 powi e"
    by (simp add: assms(3) abs_mult)
  moreover have "(P - 1) * w = 2 powi (E + 52) - 2 powi (E - 1)"
    unfolding big by (simp add: P_def w_def left_diff_distrib)
  ultimately have "\<bar>y\<bar> \<le> 2 powi (E + 52) - 2 powi (E - 1)"
    by (simp only:)
  moreover have "\<bar>x\<bar> - \<bar>y - x\<bar> \<le> \<bar>y\<bar>"
    by linarith
  moreover have "\<bar>y - x\<bar> < 2 powi (E - 1)"
    using close by (simp add: E_def half [unfolded E_def])
  ultimately have False
    using lower by linarith
  then show ?thesis ..
qed

lemma rnd_val_nearest:
  assumes "representable y"
  shows "\<bar>rnd_val x - x\<bar> \<le> \<bar>y - x\<bar>"
proof (cases "x = 0")
  case True
  then show ?thesis by simp
next
  case False
  define u :: real where "u = 2 powi ulp_exponent x"
  have u: "0 < u"
    by (simp add: u_def)
  show ?thesis
  proof (cases "u / 2 \<le> \<bar>y - x\<bar>")
    case True
    with rnd_val_error [OF False] show ?thesis
      by (simp add: u_def)
  next
    case close: False
    from assms obtain m e :: int where me: "\<bar>m\<bar> < 2 ^ 53" "- 1074 \<le> e" "y = of_int m * 2 powi e"
      unfolding representable_def by blast
    from close have "\<bar>y - x\<bar> < 2 powi ulp_exponent x / 2"
      by (simp add: u_def)
    from multiple_of_ulp [OF me False this] obtain k :: int where k: "y = of_int k * u"
      unfolding u_def by blast
    have "of_int k - x / u = (y - x) / u"
      using u by (simp add: k field_simps)
    then have "\<bar>of_int k - x / u\<bar> = \<bar>y - x\<bar> / u"
      using u by (simp add: abs_divide)
    also have "\<dots> < 1 / 2"
      using close u by (simp add: field_simps)
    finally have "round_even (x / u) = k"
      by (rule round_even_unique)
    then have "rnd_val x = y"
      using False by (simp add: rnd_val_def k u_def)
    then show ?thesis
      by simp
  qed
qed

lemma rnd_val_le:
  assumes "representable y" "x \<le> y"
  shows "rnd_val x \<le> y"
  using rnd_val_nearest [OF assms(1), of x] assms(2) by linarith

lemma rnd_val_ge:
  assumes "representable y" "y \<le> x"
  shows "y \<le> rnd_val x"
  using rnd_val_nearest [OF assms(1), of x] assms(2) by linarith

lemma rnd_val_representable_eq:
  assumes "representable y"
  shows "rnd_val y = y"
  using rnd_val_nearest [OF assms, of y] by simp

lemma representable_rnd_val: "representable (rnd_val x)"
proof (cases "x = 0")
  case True
  then show ?thesis by simp
next
  case False
  define E where "E = ulp_exponent x"
  define u :: real where "u = 2 powi E"
  define M where "M = round_even (x / u)"
  have u: "0 < u"
    by (simp add: u_def)
  have val: "rnd_val x = of_int M * u"
    using False by (simp add: rnd_val_def M_def u_def E_def)
  have "\<bar>x\<bar> < 2 powi (E + 53)"
    using ulp_exponent_bounds(1) [OF False] by (simp add: E_def)
  also have "\<dots> = u * 2 ^ 53"
    unfolding u_def by (subst power_int_add) simp_all
  finally have "\<bar>x / u\<bar> < 2 ^ 53"
    using u by (simp add: field_simps abs_mult)
  with round_even_error [of "x / u"] have "\<bar>real_of_int M\<bar> < 2 ^ 53 + 1"
    unfolding M_def by linarith
  then have "real_of_int \<bar>M\<bar> < real_of_int (2 ^ 53 + 1)"
    by simp
  then have M: "\<bar>M\<bar> \<le> 2 ^ 53"
    by linarith
  have E: "- 1074 \<le> E"
    by (simp add: E_def ulp_exponent_ge)
  show ?thesis
  proof (cases "\<bar>M\<bar> < 2 ^ 53")
    case True
    with E val show ?thesis
      unfolding representable_def u_def by blast
  next
    case False
    with M have "\<bar>M\<bar> = 2 ^ 53"
      by linarith
    then consider "M = 2 ^ 53" | "M = - (2 ^ 53)"
      by linarith
    then obtain s :: int where s: "\<bar>s\<bar> = 1" "M = s * 2 ^ 53"
      by cases (auto intro: that [of 1] that [of "- 1"])
    have "(2::real) powi (E + 1) = u * 2"
      unfolding u_def by (subst power_int_add) simp_all
    then have "rnd_val x = of_int (s * 2 ^ 52) * 2 powi (E + 1)"
      by (simp add: val s(2))
    moreover have "\<bar>s * 2 ^ 52\<bar> < (2::int) ^ 53"
      using s(1) by (simp add: abs_mult)
    moreover have "- 1074 \<le> E + 1"
      using E by simp
    ultimately show ?thesis
      unfolding representable_def by blast
  qed
qed

lemma rnd_val_mono:
  assumes "x \<le> y"
  shows "rnd_val x \<le> rnd_val y"
proof (rule ccontr)
  assume "\<not> rnd_val x \<le> rnd_val y"
  then have less: "rnd_val y < rnd_val x"
    by simp
  have 1: "\<bar>rnd_val x - x\<bar> \<le> \<bar>rnd_val y - x\<bar>"
    by (rule rnd_val_nearest) (rule representable_rnd_val)
  have 2: "\<bar>rnd_val y - y\<bar> \<le> \<bar>rnd_val x - y\<bar>"
    by (rule rnd_val_nearest) (rule representable_rnd_val)
  from 1 2 less assms have "x = y"
    by linarith
  with less show False
    by simp
qed

section \<open>Arithmetic on finite numbers\<close>

lemma representable_uminus: "representable v \<Longrightarrow> representable (- v)"
proof -
  assume "representable v"
  then obtain m e :: int where "\<bar>m\<bar> < 2 ^ 53" "- 1074 \<le> e" "v = of_int m * 2 powi e"
    unfolding representable_def by blast
  then have "\<bar>- m\<bar> < 2 ^ 53 \<and> - 1074 \<le> e \<and> - v = of_int (- m) * 2 powi e"
    by simp
  then show ?thesis
    unfolding representable_def by blast
qed

lemma representable_abs: "representable v \<Longrightarrow> representable \<bar>v\<bar>"
  by (simp add: abs_if representable_uminus)

lemma representable_dyadic:
  assumes "\<bar>k\<bar> \<le> 2 ^ 53" "- 1074 \<le> e"
  shows "representable (of_int k * 2 powi e)"
proof (cases "\<bar>k\<bar> < 2 ^ 53")
  case True
  with assms(2) show ?thesis
    unfolding representable_def by blast
next
  case False
  with assms(1) have "\<bar>k\<bar> = 2 ^ 53"
    by linarith
  then consider "k = 2 ^ 53" | "k = - (2 ^ 53)"
    by linarith
  then obtain s :: int where s: "\<bar>s\<bar> = 1" "k = s * 2 ^ 53"
    by cases (auto intro: that [of 1] that [of "- 1"])
  have "(2::real) powi (e + 1) = 2 powi e * 2"
    by (subst power_int_add) simp_all
  then have "real_of_int k * 2 powi e = real_of_int (s * 2 ^ 52) * 2 powi (e + 1)"
    by (simp add: s(2))
  moreover have "\<bar>s * 2 ^ 52\<bar> < (2::int) ^ 53"
    using s(1) by (simp add: abs_mult)
  moreover have "- 1074 \<le> e + 1"
    using assms(2) by simp
  ultimately show ?thesis
    unfolding representable_def by blast
qed

lemma representable_power_int: "- 1074 \<le> e \<Longrightarrow> representable (2 powi e)"
  using representable_dyadic [of 1 e] by simp

lemma representable_power: "representable (2 ^ n)"
  using representable_power_int [of "int n"] by simp

lemma representable_of_int: "\<bar>k\<bar> \<le> 2 ^ 53 \<Longrightarrow> representable (of_int k)"
  using representable_dyadic [of k 0] by simp

lemma representable_one [simp]: "representable 1"
  using representable_of_int [of 1] by simp

lemma rnd_val_abs_le:
  assumes "representable B" "\<bar>x\<bar> \<le> B"
  shows "\<bar>rnd_val x\<bar> \<le> B"
proof -
  have "rnd_val x \<le> B"
    using assms by (intro rnd_val_le) linarith+
  moreover have "- B \<le> rnd_val x"
    using assms by (intro rnd_val_ge representable_uminus) linarith+
  ultimately show ?thesis
    by linarith
qed

lemma rnd_val_nonneg: "0 \<le> x \<Longrightarrow> 0 \<le> rnd_val x"
  by (rule rnd_val_ge) simp_all

lemma rnd_val_nonpos: "x \<le> 0 \<Longrightarrow> rnd_val x \<le> 0"
  by (rule rnd_val_le) simp_all

text \<open>The largest power of two among the doubles bounds every result that stays finite.\<close>

lemma top_power: "representable (2 ^ 1023)" "(2::real) ^ 1023 < 2 ^ 1024"
  by (rule representable_power) simp

lemma isFinite_zero_of [simp]: "isFinite (zero_of s)" "real_of (zero_of s) = 0"
  by (simp_all add: zero_of_def)

lemma round64_finite:
  assumes "\<bar>x\<bar> \<le> 2 ^ 1023"
  shows "isFinite (round64 x)" and "real_of (round64 x) = rnd_val x"
proof -
  have "\<bar>rnd_val x\<bar> \<le> 2 ^ 1023"
    using top_power(1) assms by (rule rnd_val_abs_le)
  with top_power(2) have small: "\<not> 2 ^ 1024 \<le> \<bar>rnd_val x\<bar>"
    by linarith
  show "isFinite (round64 x)"
    using small by (simp add: round64_def Let_def)
  show "real_of (round64 x) = rnd_val x"
    using small by (simp add: round64_def Let_def)
qed

lemma round64_nonneg:
  assumes "0 \<le> x" "x \<le> 2 ^ 1023"
  shows "round64 x = Fin (rnd_val x)"
proof -
  have "\<bar>rnd_val x\<bar> \<le> 2 ^ 1023"
    using top_power(1) assms by (intro rnd_val_abs_le) simp_all
  with top_power(2) have small: "\<not> 2 ^ 1024 \<le> \<bar>rnd_val x\<bar>"
    by linarith
  then show ?thesis
    using assms(1) by (simp add: round64_def Let_def zero_of_def)
qed

lemma round64_is_double:
  assumes "is_double x"
  shows "round64 x = Fin x"
proof -
  from assms have "rnd_val x = x" "\<not> 2 ^ 1024 \<le> \<bar>x\<bar>"
    by (simp_all add: is_double_def rnd_val_representable_eq)
  then show ?thesis
    by (simp add: round64_def Let_def zero_of_def)
qed

lemma is_zero_finite: "isFinite X \<Longrightarrow> is_zero X \<longleftrightarrow> real_of X = 0"
  by (cases X) simp_all

lemma plus_finite:
  assumes "isFinite X" "isFinite Y" "\<bar>real_of X + real_of Y\<bar> \<le> 2 ^ 1023"
  shows "isFinite (X + Y)" and "real_of (X + Y) = rnd_val (real_of X + real_of Y)"
proof -
  have eq: "X + Y = (let s = real_of X + real_of Y
      in if s = 0 then zero_of (negative X \<and> negative Y) else round64 s)"
    using assms(1,2) by (cases X; cases Y) (simp_all add: Let_def)
  show "isFinite (X + Y)"
    unfolding eq Let_def using round64_finite(1) [OF assms(3)] by simp
  show "real_of (X + Y) = rnd_val (real_of X + real_of Y)"
    unfolding eq Let_def using round64_finite(2) [OF assms(3)] by simp
qed

lemma uminus_finite:
  assumes "isFinite X"
  shows "isFinite (- X)" and "real_of (- X) = - real_of X"
  using assms by (cases X; simp)+

lemma minus_finite:
  assumes "isFinite X" "isFinite Y" "\<bar>real_of X - real_of Y\<bar> \<le> 2 ^ 1023"
  shows "isFinite (X - Y)" and "real_of (X - Y) = rnd_val (real_of X - real_of Y)"
proof -
  have Y: "isFinite (- Y)" "real_of (- Y) = - real_of Y"
    using uminus_finite [OF assms(2)] by simp_all
  have bound: "\<bar>real_of X + real_of (- Y)\<bar> \<le> 2 ^ 1023"
    using assms(3) by (simp add: Y(2))
  show "isFinite (X - Y)"
    unfolding minus_number_def by (rule plus_finite(1) [OF assms(1) Y(1) bound])
  show "real_of (X - Y) = rnd_val (real_of X - real_of Y)"
    unfolding minus_number_def using plus_finite(2) [OF assms(1) Y(1) bound] by (simp add: Y(2))
qed

lemma times_finite:
  assumes "isFinite X" "isFinite Y" "\<bar>real_of X * real_of Y\<bar> \<le> 2 ^ 1023"
  shows "isFinite (X * Y)" and "real_of (X * Y) = rnd_val (real_of X * real_of Y)"
proof -
  have eq: "X * Y = (let p = real_of X * real_of Y
      in if p = 0 then zero_of (negative X \<noteq> negative Y) else round64 p)"
    using assms(1,2) by (cases X; cases Y) (simp_all add: Let_def)
  show "isFinite (X * Y)"
    unfolding eq Let_def using round64_finite(1) [OF assms(3)] by simp
  show "real_of (X * Y) = rnd_val (real_of X * real_of Y)"
    unfolding eq Let_def using round64_finite(2) [OF assms(3)] by simp
qed

lemma divide_finite:
  assumes "isFinite X" "isFinite Y" "real_of Y \<noteq> 0" "\<bar>real_of X / real_of Y\<bar> \<le> 2 ^ 1023"
  shows "isFinite (X / Y)" and "real_of (X / Y) = rnd_val (real_of X / real_of Y)"
proof -
  have Y: "\<not> is_zero Y"
    using assms(2,3) by (simp add: is_zero_finite)
  have eq: "X / Y = (if is_zero X then zero_of (negative X \<noteq> negative Y)
      else round64 (real_of X / real_of Y))"
    using assms(1,2) Y by (cases X; cases Y) simp_all
  show "isFinite (X / Y)"
    unfolding eq using round64_finite(1) [OF assms(4)] by simp
  show "real_of (X / Y) = rnd_val (real_of X / real_of Y)"
    unfolding eq using round64_finite(2) [OF assms(4)] assms(1)
    by (simp add: is_zero_finite)
qed

lemma abs_finite:
  assumes "isFinite X"
  shows "Math_abs X = Fin \<bar>real_of X\<bar>"
  using assms by (cases X) simp_all

lemma less_eq_finite:
  assumes "isFinite X" "isFinite Y"
  shows "X \<le> Y \<longleftrightarrow> real_of X \<le> real_of Y"
  using assms by (cases X; cases Y) simp_all

lemma less_finite:
  assumes "isFinite X" "isFinite Y"
  shows "X < Y \<longleftrightarrow> real_of X < real_of Y"
  using assms by (cases X; cases Y) simp_all

lemma strict_eq_finite:
  assumes "isFinite X" "isFinite Y"
  shows "strict_eq X Y \<longleftrightarrow> real_of X = real_of Y"
  using assms by (cases X; cases Y) (simp_all add: strict_eq_def)

lemma max_zero_finite:
  assumes "isFinite X"
  shows "Math_max (Fin 0) X = Fin (max 0 (real_of X))"
  using assms by (cases X) (auto simp add: zero_of_def max_def)

text \<open>Operands that are not negative: the result is a \<open>Fin\<close>, never the negative zero.\<close>

lemma Fin_plus_nonneg:
  assumes "0 \<le> x" "0 \<le> y" "x + y \<le> 2 ^ 1023"
  shows "Fin x + Fin y = Fin (rnd_val (x + y))"
proof (cases "x + y = 0")
  case True
  with assms show ?thesis
    by (simp add: zero_of_def)
next
  case False
  with assms round64_nonneg [of "x + y"] show ?thesis
    by simp
qed

lemma Fin_times_nonneg:
  assumes "0 \<le> x" "0 \<le> y" "x * y \<le> 2 ^ 1023"
  shows "Fin x * Fin y = Fin (rnd_val (x * y))"
proof (cases "x * y = 0")
  case True
  with assms show ?thesis
    by (auto simp add: zero_of_def)
next
  case False
  have "0 \<le> x * y"
    using assms(1,2) by simp
  from round64_nonneg [OF this assms(3)] False show ?thesis
    by simp
qed

lemma Fin_divide_nonneg:
  assumes "0 \<le> x" "0 < y" "x / y \<le> 2 ^ 1023"
  shows "Fin x / Fin y = Fin (rnd_val (x / y))"
proof (cases "x = 0")
  case True
  with assms show ?thesis
    by (simp add: zero_of_def)
next
  case False
  have "0 \<le> x / y"
    using assms(1,2) by simp
  from round64_nonneg [OF this assms(3)] False assms(2) show ?thesis
    by simp
qed

lemma Fin_minus_exact:
  assumes "is_double (x - y)"
  shows "Fin x - Fin y = Fin (x - y)"
proof (cases "y = 0")
  case True
  with round64_is_double [OF assms] show ?thesis
    by (simp add: minus_number_def zero_of_def)
next
  case False
  with round64_is_double [OF assms] show ?thesis
    by (simp add: minus_number_def zero_of_def)
qed

lemma is_double_dyadic:
  assumes "\<bar>k\<bar> \<le> 2 ^ 53" "- 1074 \<le> e" "e \<le> 970"
  shows "is_double (of_int k * 2 powi e)"
proof -
  have "real_of_int \<bar>k\<bar> \<le> real_of_int (2 ^ 53)"
    using assms(1) by (simp only: of_int_le_iff)
  then have k: "\<bar>real_of_int k\<bar> \<le> 2 ^ 53"
    by simp
  have "(2::real) powi e \<le> 2 powi 970"
    by (rule power_int_increasing) (use assms(3) in simp_all)
  with k have "\<bar>real_of_int k\<bar> * 2 powi e \<le> 2 ^ 53 * 2 powi 970"
    by (intro mult_mono) simp_all
  also have "\<dots> = 2 ^ 1023"
    by (simp add: power_add [symmetric])
  finally have "\<bar>of_int k * 2 powi e\<bar> < (2::real) ^ 1024"
    using top_power(2) by (simp add: abs_mult)
  with representable_dyadic [OF assms(1,2)] show ?thesis
    by (simp add: is_double_def)
qed

lemma is_double_of_int: "\<bar>k\<bar> \<le> 2 ^ 53 \<Longrightarrow> is_double (of_int k)"
  using is_double_dyadic [of k 0] by simp

section \<open>Results that stay finite\<close>

text \<open>
  A finite result of \<open>round64\<close> is the nearest double, and a result whose magnitude is
  bounded by a double does not overflow.
\<close>

lemma round64_value:
  assumes "isFinite (round64 x)"
  shows "real_of (round64 x) = rnd_val x" and "is_double (rnd_val x)"
proof -
  have small: "\<not> 2 ^ 1024 \<le> \<bar>rnd_val x\<bar>"
  proof
    assume "2 ^ 1024 \<le> \<bar>rnd_val x\<bar>"
    then have "round64 x = inf_of (x < 0)"
      by (simp add: round64_def Let_def)
    with assms show False
      by (simp add: inf_of_def split: if_splits)
  qed
  then show "real_of (round64 x) = rnd_val x"
    by (simp add: round64_def Let_def)
  from small show "is_double (rnd_val x)"
    by (simp add: is_double_def representable_rnd_val)
qed

lemma round64_bounded:
  assumes "is_double B" "\<bar>x\<bar> \<le> B"
  shows "isFinite (round64 x)"
proof -
  have "\<bar>rnd_val x\<bar> \<le> B"
    using assms by (intro rnd_val_abs_le) (simp_all add: is_double_def)
  moreover have "B < 2 ^ 1024"
    using assms(1) unfolding is_double_def by linarith
  ultimately have "\<not> 2 ^ 1024 \<le> \<bar>rnd_val x\<bar>"
    by linarith
  then show ?thesis
    by (simp add: round64_def Let_def)
qed

lemma is_double_zero [simp]: "is_double 0"
  by (simp add: is_double_def)

lemma is_double_abs: "is_double v \<Longrightarrow> is_double \<bar>v\<bar>"
  by (simp add: is_double_def representable_abs)

lemma is_double_max: "is_double v \<Longrightarrow> is_double w \<Longrightarrow> is_double (max v w)"
  by (simp add: max_def)

lemma plus_finite_eq:
  assumes "isFinite X" "isFinite Y"
  shows "X + Y = (if real_of X + real_of Y = 0 then zero_of (negative X \<and> negative Y)
                  else round64 (real_of X + real_of Y))"
  using assms by (cases X; cases Y) (simp_all add: Let_def)

lemma times_finite_eq:
  assumes "isFinite X" "isFinite Y"
  shows "X * Y = (if real_of X * real_of Y = 0 then zero_of (negative X \<noteq> negative Y)
                  else round64 (real_of X * real_of Y))"
  using assms by (cases X; cases Y) (simp_all add: Let_def)

lemma divide_finite_eq:
  assumes "isFinite X" "isFinite Y" "real_of Y \<noteq> 0"
  shows "X / Y = (if real_of X = 0 then zero_of (negative X \<noteq> negative Y)
                  else round64 (real_of X / real_of Y))"
  using assms by (cases X; cases Y) simp_all

lemma plus_value:
  assumes "isFinite X" "isFinite Y" "isFinite (X + Y)"
  shows "real_of (X + Y) = rnd_val (real_of X + real_of Y)"
    and "is_double (real_of (X + Y))"
proof -
  note eq = plus_finite_eq [OF assms(1,2)]
  show "real_of (X + Y) = rnd_val (real_of X + real_of Y)"
  proof (cases "real_of X + real_of Y = 0")
    case True
    then show ?thesis by (simp add: eq)
  next
    case False
    with assms(3) have "isFinite (round64 (real_of X + real_of Y))"
      by (simp add: eq)
    from round64_value(1) [OF this] False show ?thesis
      by (simp add: eq)
  qed
  show "is_double (real_of (X + Y))"
  proof (cases "real_of X + real_of Y = 0")
    case True
    then show ?thesis by (simp add: eq)
  next
    case False
    with assms(3) have "isFinite (round64 (real_of X + real_of Y))"
      by (simp add: eq)
    from round64_value [OF this] False show ?thesis
      by (simp add: eq)
  qed
qed

lemma times_value:
  assumes "isFinite X" "isFinite Y" "isFinite (X * Y)"
  shows "real_of (X * Y) = rnd_val (real_of X * real_of Y)"
    and "is_double (real_of (X * Y))"
proof -
  define p where "p = real_of X * real_of Y"
  have eq: "X * Y = (if p = 0 then zero_of (negative X \<noteq> negative Y) else round64 p)"
    unfolding p_def by (rule times_finite_eq [OF assms(1,2)])
  have "real_of (X * Y) = rnd_val p \<and> is_double (real_of (X * Y))"
  proof (cases "p = 0")
    case True
    then show ?thesis by (simp add: eq)
  next
    case False
    with assms(3) have "isFinite (round64 p)"
      by (simp add: eq)
    from round64_value [OF this] False show ?thesis
      by (simp add: eq)
  qed
  then have 1: "real_of (X * Y) = rnd_val p" and 2: "is_double (real_of (X * Y))"
    by blast+
  from 1 show "real_of (X * Y) = rnd_val (real_of X * real_of Y)"
    by (simp only: p_def)
  from 2 show "is_double (real_of (X * Y))" .
qed

text \<open>A product is finite only if both factors are.\<close>

lemma times_finite_factors:
  assumes "isFinite (X * Y)"
  shows "isFinite X" and "isFinite Y"
  using assms by (cases X; cases Y; simp add: inf_of_def split: if_splits)+

lemma plus_bounded:
  assumes "isFinite X" "isFinite Y" "is_double B" "\<bar>real_of X + real_of Y\<bar> \<le> B"
  shows "isFinite (X + Y)"
  unfolding plus_finite_eq [OF assms(1,2)]
  using round64_bounded [OF assms(3,4)] by simp

lemma minus_bounded:
  assumes "isFinite X" "isFinite Y" "is_double B" "\<bar>real_of X - real_of Y\<bar> \<le> B"
  shows "isFinite (X - Y)" and "real_of (X - Y) = rnd_val (real_of X - real_of Y)"
    and "is_double (real_of (X - Y))"
proof -
  have Y: "isFinite (- Y)" "real_of (- Y) = - real_of Y"
    using uminus_finite [OF assms(2)] by simp_all
  have bound: "\<bar>real_of X + real_of (- Y)\<bar> \<le> B"
    using assms(4) by (simp add: Y(2))
  have fin: "isFinite (X + - Y)"
    by (rule plus_bounded [OF assms(1) Y(1) assms(3) bound])
  then show "isFinite (X - Y)"
    by (simp add: minus_number_def)
  show "real_of (X - Y) = rnd_val (real_of X - real_of Y)"
    using plus_value(1) [OF assms(1) Y(1) fin] by (simp add: minus_number_def Y(2))
  show "is_double (real_of (X - Y))"
    using plus_value(2) [OF assms(1) Y(1) fin] by (simp add: minus_number_def)
qed

lemma divide_bounded:
  assumes "isFinite X" "isFinite Y" "real_of Y \<noteq> 0" "is_double B"
    "\<bar>real_of X / real_of Y\<bar> \<le> B"
  shows "isFinite (X / Y)" and "real_of (X / Y) = rnd_val (real_of X / real_of Y)"
    and "is_double (real_of (X / Y))"
proof -
  note eq = divide_finite_eq [OF assms(1-3)]
  have fin: "isFinite (round64 (real_of X / real_of Y))"
    by (rule round64_bounded [OF assms(4,5)])
  show "isFinite (X / Y)"
    unfolding eq using fin by simp
  show "real_of (X / Y) = rnd_val (real_of X / real_of Y)"
    unfolding eq using round64_value(1) [OF fin] by simp
  show "is_double (real_of (X / Y))"
    unfolding eq using round64_value [OF fin] by simp
qed

text \<open>A number between the positive zero and a finite number is finite.\<close>

lemma between_finite:
  assumes "Fin 0 \<le> X" "X \<le> Fin B"
  shows "isFinite X" and "0 \<le> real_of X" and "real_of X \<le> B"
  using assms by (cases X; simp)+

lemma nonneg_cases:
  assumes "Fin 0 \<le> X"
  obtains "isFinite X" "0 \<le> real_of X" | "X = PInf"
  using assms by (cases X) simp_all

text \<open>Exact results: the real result is a double, so nothing is rounded.\<close>

lemma Fin_plus_exact:
  assumes "0 \<le> x" "0 \<le> y" "is_double (x + y)"
  shows "Fin x + Fin y = Fin (x + y)"
proof (cases "x + y = 0")
  case True
  with assms show ?thesis
    by (simp add: zero_of_def)
next
  case False
  with assms round64_is_double [OF assms(3)] show ?thesis
    by simp
qed

lemma Fin_times_exact:
  assumes "0 \<le> x" "0 \<le> y" "is_double (x * y)"
  shows "Fin x * Fin y = Fin (x * y)"
proof (cases "x * y = 0")
  case True
  with assms show ?thesis
    by (auto simp add: zero_of_def)
next
  case False
  with round64_is_double [OF assms(3)] show ?thesis
    by simp
qed

lemma Fin_divide_exact:
  assumes "0 \<le> x" "0 < y" "is_double (x / y)"
  shows "Fin x / Fin y = Fin (x / y)"
proof (cases "x = 0")
  case True
  with assms show ?thesis
    by (simp add: zero_of_def)
next
  case False
  with round64_is_double [OF assms(3)] assms(2) show ?thesis
    by simp
qed

text \<open>Whole numbers up to \<open>2^53\<close>, and their halves and quarters, are doubles.\<close>

lemma is_double_Ints:
  assumes "x \<in> \<int>" "\<bar>x\<bar> \<le> 2 ^ 53"
  shows "is_double x"
proof -
  from assms(1) obtain k :: int where k: "x = of_int k"
    by (rule Ints_cases)
  from assms(2) have "real_of_int \<bar>k\<bar> \<le> real_of_int (2 ^ 53)"
    by (simp add: k)
  then have "\<bar>k\<bar> \<le> 2 ^ 53"
    by (simp only: of_int_le_iff)
  from is_double_of_int [OF this] show ?thesis
    by (simp add: k)
qed

lemma is_double_Nats:
  assumes "x \<in> \<nat>" "x \<le> 2 ^ 53"
  shows "is_double x"
proof -
  from assms(1) have "x \<in> \<int>" "0 \<le> x"
    by (simp_all add: Nats_altdef2)
  with assms(2) show ?thesis
    by (intro is_double_Ints) simp_all
qed

lemma is_double_quarters:
  assumes "4 * x \<in> \<int>" "\<bar>4 * x\<bar> \<le> 2 ^ 53"
  shows "is_double x"
proof -
  from assms(1) obtain k :: int where k: "4 * x = of_int k"
    by (rule Ints_cases)
  from assms(2) have "real_of_int \<bar>k\<bar> \<le> real_of_int (2 ^ 53)"
    by (simp add: k [symmetric])
  then have "\<bar>k\<bar> \<le> 2 ^ 53"
    by (simp only: of_int_le_iff)
  then have "is_double (of_int k * 2 powi (- 2))"
    by (rule is_double_dyadic) simp_all
  moreover have "of_int k * 2 powi (- 2) = x"
    by (simp add: k [symmetric] power_int_minus)
  ultimately show ?thesis
    by simp
qed

lemma is_double_halves:
  assumes "2 * x \<in> \<int>" "\<bar>2 * x\<bar> \<le> 2 ^ 53"
  shows "is_double x"
proof -
  from assms(1) obtain k :: int where k: "2 * x = of_int k"
    by (rule Ints_cases)
  from assms(2) have "real_of_int \<bar>k\<bar> \<le> real_of_int (2 ^ 53)"
    by (simp add: k [symmetric])
  then have "\<bar>k\<bar> \<le> 2 ^ 53"
    by (simp only: of_int_le_iff)
  then have "is_double (of_int k * 2 powi (- 1))"
    by (rule is_double_dyadic) simp_all
  moreover have "of_int k * 2 powi (- 1) = x"
    by (simp add: k [symmetric] power_int_minus)
  ultimately show ?thesis
    by simp
qed

lemma Nats_pos_ge_one:
  assumes "x \<in> \<nat>" "0 < (x::real)"
  shows "1 \<le> x"
proof -
  from assms(1) obtain n :: nat where "x = of_nat n"
    by (rule Nats_cases)
  with assms(2) show ?thesis
    by simp
qed

text \<open>Powers of two are doubles up to \<open>2^1023\<close>; rounding does not cross them.\<close>

lemma is_double_power: "n \<le> 1023 \<Longrightarrow> is_double (2 ^ n)"
proof -
  assume n: "n \<le> 1023"
  have "(2::real) ^ n \<le> 2 ^ 1023"
    using n by (intro power_increasing) simp_all
  with top_power(2) have "\<bar>(2::real) ^ n\<bar> < 2 ^ 1024"
    by simp
  then show ?thesis
    by (simp add: is_double_def representable_power)
qed

lemma rnd_val_power: "rnd_val (2 ^ n) = 2 ^ n"
  by (rule rnd_val_representable_eq) (rule representable_power)

section \<open>Inputs, comparisons with zero and texts\<close>

lemma chi_counts_simps [simp]:
  "cell_a (chi_counts a b c d y) = Fin a"
  "cell_b (chi_counts a b c d y) = Fin b"
  "cell_c (chi_counts a b c d y) = Fin c"
  "cell_d (chi_counts a b c d y) = Fin d"
  "yates (chi_counts a b c d y) = y"
  by (simp_all add: chi_counts_def)

lemma epi_counts_simps [simp]:
  "cell_a (epi_counts a b c d) = Fin a"
  "cell_b (epi_counts a b c d) = Fin b"
  "cell_c (epi_counts a b c d) = Fin c"
  "cell_d (epi_counts a b c d) = Fin d"
  by (simp_all add: epi_counts_def)

lemma ci_counts_simps [simp]:
  "cell_a (ci_counts a b c d cf) = Fin a"
  "cell_b (ci_counts a b c d cf) = Fin b"
  "cell_c (ci_counts a b c d cf) = Fin c"
  "cell_d (ci_counts a b c d cf) = Fin d"
  "conf (ci_counts a b c d cf) = cf"
  by (simp_all add: ci_counts_def)

lemma sample_externals_simps [simp]:
  "getZCritical (sample_externals z) cf = Fin z"
  "approx_exp (sample_externals z) t = round64 (exp t)"
  "approx_log (sample_externals z) x = round64 (ln x)"
  "approx_pow (sample_externals z) x k = round64 (x ^ k)"
  "number_digits (sample_externals z) = (\<lambda>r. [])"
  by (simp_all add: sample_externals_def)

lemma strict_eq_zero: "strict_eq X (Fin 0) \<longleftrightarrow> is_zero X"
  by (cases X) (simp_all add: strict_eq_def)

lemma strict_ne_zero: "strict_ne X (Fin 0) \<longleftrightarrow> \<not> is_zero X"
  by (simp add: strict_ne_def strict_eq_zero)

lemma toFixed_not_finite:
  "toFixed digits PInf f = ''Infinity''"
  "toFixed digits NInf f = ''-Infinity''"
  "toFixed digits NaN f = ''NaN''"
  by (simp_all add: toFixed_def)

text \<open>A double of at least \<open>2^e\<close> is the rounding of every real of at least \<open>2^e\<close>.\<close>

lemma rnd_val_ge_power_int:
  assumes "- 1074 \<le> e" "2 powi e \<le> x"
  shows "2 powi e \<le> rnd_val x"
  using representable_power_int [OF assms(1)] assms(2) by (rule rnd_val_ge)

lemma rnd_val_ge_one: "1 \<le> x \<Longrightarrow> 1 \<le> rnd_val x"
  by (rule rnd_val_ge) simp_all

lemma rnd_val_pos:
  assumes "2 powi (- 1074) \<le> x"
  shows "0 < rnd_val x"
proof -
  have "(0::real) < 2 powi (- 1074)"
    by simp
  also have "\<dots> \<le> rnd_val x"
    using assms by (intro rnd_val_ge_power_int) simp_all
  finally show ?thesis .
qed

lemma rnd_val_exact: "is_double x \<Longrightarrow> rnd_val x = x"
  by (simp add: is_double_def rnd_val_representable_eq)

section \<open>Chi-square test: zero totals\<close>

text \<open>
  C2. When a row sum or a column sum is zero (\<open>=== 0\<close>, which either zero satisfies),
  \<open>compute\<close> returns the response with no results and the explanatory message, whatever
  the external functions are: neither the statistic nor the p-value is computed.
\<close>

theorem chiSquare_zero_totals:
  assumes "strict_eq (cell_a data + cell_b data) (Fin 0)
           \<or> strict_eq (cell_c data + cell_d data) (Fin 0)
           \<or> strict_eq (cell_a data + cell_c data) (Fin 0)
           \<or> strict_eq (cell_b data + cell_d data) (Fin 0)"
  shows "chiSquare_compute env data
         = \<lparr>results = [],
            interpretation_text = ''Table contains a row or column with zero totals.'',
            rCode = None, formula = None\<rparr>"
  using assms
  by (auto simp add: chiSquare_compute_def zero_totals_result_def Let_def)

theorem chiSquare_zero_totals_witness:
  "(strict_eq (cell_a (chi_counts 0 0 5 5 True) + cell_b (chi_counts 0 0 5 5 True)) (Fin 0)
    \<or> strict_eq (cell_c (chi_counts 0 0 5 5 True) + cell_d (chi_counts 0 0 5 5 True)) (Fin 0)
    \<or> strict_eq (cell_a (chi_counts 0 0 5 5 True) + cell_c (chi_counts 0 0 5 5 True)) (Fin 0)
    \<or> strict_eq (cell_b (chi_counts 0 0 5 5 True) + cell_d (chi_counts 0 0 5 5 True)) (Fin 0))
   \<and> results (chiSquare_compute (sample_externals 2) (chi_counts 0 0 5 5 True)) = []"
proof -
  have zero:
    "strict_eq (cell_a (chi_counts 0 0 5 5 True) + cell_b (chi_counts 0 0 5 5 True)) (Fin 0)
    \<or> strict_eq (cell_c (chi_counts 0 0 5 5 True) + cell_d (chi_counts 0 0 5 5 True)) (Fin 0)
    \<or> strict_eq (cell_a (chi_counts 0 0 5 5 True) + cell_c (chi_counts 0 0 5 5 True)) (Fin 0)
    \<or> strict_eq (cell_b (chi_counts 0 0 5 5 True) + cell_d (chi_counts 0 0 5 5 True)) (Fin 0)"
    by (simp add: strict_eq_zero zero_of_def)
  from chiSquare_zero_totals [OF zero, of "sample_externals 2"] zero show ?thesis
    by simp
qed

section \<open>Epi 2x2 CI toolkit: branches\<close>

text \<open>
  C4. When one of the raw cells is zero (\<open>=== 0\<close>), the bounds of the exact-like interval
  are the Woolf bounds.
\<close>

theorem ciEpi_zero_cell_fallback:
  assumes "strict_eq (cell_a data) (Fin 0) \<or> strict_eq (cell_b data) (Fin 0)
           \<or> strict_eq (cell_c data) (Fin 0) \<or> strict_eq (cell_d data) (Fin 0)"
  shows "ciEpi_exactLower env data = ciEpi_woolfLower env data
       \<and> ciEpi_exactUpper env data = ciEpi_woolfUpper env data"
  using assms
  by (auto simp add: ciEpi_exactLower_def ciEpi_exactUpper_def strict_ne_def)

text \<open>The second example of the source: \<open>a=2, b=18, c=0, d=20, conf=95\<close>.\<close>

theorem ciEpi_zero_cell_fallback_witness:
  "(strict_eq (cell_a (ci_counts 2 18 0 20 (Fin 95))) (Fin 0)
    \<or> strict_eq (cell_b (ci_counts 2 18 0 20 (Fin 95))) (Fin 0)
    \<or> strict_eq (cell_c (ci_counts 2 18 0 20 (Fin 95))) (Fin 0)
    \<or> strict_eq (cell_d (ci_counts 2 18 0 20 (Fin 95))) (Fin 0))
   \<and> ciEpi_exactLower (sample_externals (49 / 25)) (ci_counts 2 18 0 20 (Fin 95))
       = ciEpi_woolfLower (sample_externals (49 / 25)) (ci_counts 2 18 0 20 (Fin 95))
   \<and> ciEpi_exactUpper (sample_externals (49 / 25)) (ci_counts 2 18 0 20 (Fin 95))
       = ciEpi_woolfUpper (sample_externals (49 / 25)) (ci_counts 2 18 0 20 (Fin 95))"
proof -
  have zero: "strict_eq (cell_a (ci_counts 2 18 0 20 (Fin 95))) (Fin 0)
    \<or> strict_eq (cell_b (ci_counts 2 18 0 20 (Fin 95))) (Fin 0)
    \<or> strict_eq (cell_c (ci_counts 2 18 0 20 (Fin 95))) (Fin 0)
    \<or> strict_eq (cell_d (ci_counts 2 18 0 20 (Fin 95))) (Fin 0)"
    by (simp add: strict_eq_zero)
  from ciEpi_zero_cell_fallback [OF zero, of "sample_externals (49 / 25)"] zero
  show ?thesis
    by (simp only: simp_thms)
qed

text \<open>
  The other branch: with no raw cell equal to zero, the exact-like bounds are the point
  estimate divided and multiplied by \<open>Math.exp(zCrit * seExact)\<close>.
\<close>

lemma ciEpi_exact_formula:
  assumes "strict_ne (cell_a data) (Fin 0)" "strict_ne (cell_b data) (Fin 0)"
    "strict_ne (cell_c data) (Fin 0)" "strict_ne (cell_d data) (Fin 0)"
  shows "ciEpi_exactLower env data
           = ciEpi_orPoint data
             / Math_exp (approx_exp env) (ciEpi_zCrit env data * ciEpi_seExact data)"
    and "ciEpi_exactUpper env data
           = ciEpi_orPoint data
             * Math_exp (approx_exp env) (ciEpi_zCrit env data * ciEpi_seExact data)"
  using assms
  by (simp_all add: ciEpi_exactLower_def ciEpi_exactUpper_def)

text \<open>
  C5. \<open>getLogP\<close> returns 1 for NaN, for either infinity, for either zero and for every
  finite estimate below 0, whatever the distribution utility is; for a finite positive
  estimate it returns the two-sided p-value of \<open>|Math.log(est)| / seLog\<close> at 1000 degrees
  of freedom.
\<close>

theorem getLogP_cases:
  assumes "x \<le> 0" and "0 < y"
  shows "getLogP env NaN seLog = Fin 1
       \<and> getLogP env PInf seLog = Fin 1
       \<and> getLogP env NInf seLog = Fin 1
       \<and> getLogP env NZero seLog = Fin 1
       \<and> getLogP env (Fin x) seLog = Fin 1
       \<and> getLogP env (Fin y) seLog
           = twoSided (getTPValue env
               (Math_abs (Math_log (approx_log env) (Fin y)) / seLog) (Fin 1000))"
  using assms by (simp add: getLogP_def)

theorem getLogP_cases_witness:
  "(0::real) \<le> 0 \<and> (0::real) < 7 / 2
   \<and> getLogP (sample_externals 2) NaN (Fin 1) = Fin 1
   \<and> getLogP (sample_externals 2) PInf (Fin 1) = Fin 1
   \<and> getLogP (sample_externals 2) NInf (Fin 1) = Fin 1
   \<and> getLogP (sample_externals 2) NZero (Fin 1) = Fin 1
   \<and> getLogP (sample_externals 2) (Fin 0) (Fin 1) = Fin 1
   \<and> getLogP (sample_externals 2) (Fin (7 / 2)) (Fin 1)
       = twoSided (getTPValue (sample_externals 2)
           (Math_abs (Math_log (approx_log (sample_externals 2)) (Fin (7 / 2))) / Fin 1)
           (Fin 1000))"
proof -
  have hyps: "(0::real) \<le> 0" "(0::real) < 7 / 2"
    by simp_all
  from getLogP_cases [OF hyps, of "sample_externals 2" "Fin 1"] hyps show ?thesis
    by (simp only: simp_thms)
qed

section \<open>Odds ratio point estimate\<close>

lemma epiMeasures_entries:
  "val (results (epiMeasures_compute env data) ! 0)
   = Text (toFixed (number_digits env) (epiMeasures_rr data) 3)"
  "val (results (epiMeasures_compute env data) ! 1)
   = Text (toFixed (number_digits env) (epiMeasures_or data) 3)"
  by (simp_all add: epiMeasures_compute_def Let_def)

text \<open>
  Whole counts whose products \<open>a*d\<close> and \<open>b*c\<close> are at most \<open>2^53\<close>: the products are
  exact, and the quotient is rounded once.
\<close>

lemma odds_ratio_whole_counts:
  assumes "p \<in> \<nat>" "q \<in> \<nat>" "r \<in> \<nat>" "s \<in> \<nat>"
    and "0 < q" "0 < r" "p * s \<le> 2 ^ 53" "q * r \<le> 2 ^ 53"
  shows "(Fin p * Fin s) / (Fin q * Fin r) = Fin (rnd_val ((p * s) / (q * r)))"
proof -
  have nonneg: "0 \<le> p" "0 \<le> q" "0 \<le> r" "0 \<le> s"
    using assms(1-4) by (simp_all add: Nats_altdef2)
  have ps: "Fin p * Fin s = Fin (p * s)"
    using nonneg assms(1,4,7) by (intro Fin_times_exact is_double_Nats Nats_mult)
  have qr: "Fin q * Fin r = Fin (q * r)"
    using nonneg assms(2,3,8) by (intro Fin_times_exact is_double_Nats Nats_mult)
  have "1 \<le> q" "1 \<le> r"
    using assms(2,3,5,6) by (simp_all add: Nats_pos_ge_one)
  then have one: "1 \<le> q * r"
    using mult_mono [of 1 q 1 r] by simp
  have "p * s * 1 \<le> p * s * (q * r)"
    using one nonneg by (intro mult_left_mono) simp_all
  then have "(p * s) / (q * r) \<le> p * s"
    using one by (simp add: divide_le_eq)
  also have "\<dots> \<le> 2 ^ 1023"
    using assms(7) power_increasing [of 53 1023 "2::real"] by simp
  finally have bound: "(p * s) / (q * r) \<le> 2 ^ 1023" .
  have "Fin (p * s) / Fin (q * r) = Fin (rnd_val ((p * s) / (q * r)))"
    using nonneg one bound by (intro Fin_divide_nonneg) simp_all
  then show ?thesis
    by (simp only: ps qr)
qed

text \<open>
  C9. \<open>epiMeasures\<close> computes \<open>or = (a*d)/(b*c)\<close> in the arithmetic of doubles, for every
  input; \<open>ciEpi\<close> computes the same value as \<open>orPoint\<close> whenever \<open>b\<close> and \<open>c\<close> are both
  nonzero; the odds ratio entry of \<open>epiMeasures\<close> is that value printed with three
  decimals. For whole counts with \<open>a*d\<close> and \<open>b*c\<close> at most \<open>2^53\<close> the value is the
  double nearest to the exact quotient.
\<close>

theorem odds_ratio_point:
  "epiMeasures_or \<lparr>cell_a = a, cell_b = b, cell_c = c, cell_d = d\<rparr> = (a * d) / (b * c)
   \<and> (strict_ne b (Fin 0) \<and> strict_ne c (Fin 0) \<longrightarrow>
        ciEpi_orPoint \<lparr>cell_a = a, cell_b = b, cell_c = c, cell_d = d, conf = cf\<rparr>
          = (a * d) / (b * c))
   \<and> val (results (epiMeasures_compute env
            \<lparr>cell_a = a, cell_b = b, cell_c = c, cell_d = d\<rparr>) ! 1)
       = Text (toFixed (number_digits env) ((a * d) / (b * c)) 3)
   \<and> (a = Fin p \<and> b = Fin q \<and> c = Fin r \<and> d = Fin s
        \<and> p \<in> \<nat> \<and> q \<in> \<nat> \<and> r \<in> \<nat> \<and> s \<in> \<nat>
        \<and> 0 < q \<and> 0 < r \<and> p * s \<le> 2 ^ 53 \<and> q * r \<le> 2 ^ 53 \<longrightarrow>
        (a * d) / (b * c) = Fin (rnd_val ((p * s) / (q * r))))"
proof -
  have formula_eq: "epiMeasures_or \<lparr>cell_a = a, cell_b = b, cell_c = c, cell_d = d\<rparr>
      = (a * d) / (b * c)"
    by (simp add: epiMeasures_or_def)
  have point: "ciEpi_orPoint \<lparr>cell_a = a, cell_b = b, cell_c = c, cell_d = d, conf = cf\<rparr>
      = (a * d) / (b * c)"
    if "strict_ne b (Fin 0) \<and> strict_ne c (Fin 0)"
    using that by (simp add: ciEpi_orPoint_def)
  have shown: "val (results (epiMeasures_compute env
            \<lparr>cell_a = a, cell_b = b, cell_c = c, cell_d = d\<rparr>) ! 1)
       = Text (toFixed (number_digits env) ((a * d) / (b * c)) 3)"
    by (simp only: epiMeasures_entries(2) formula_eq)
  have whole: "(a * d) / (b * c) = Fin (rnd_val ((p * s) / (q * r)))"
    if "a = Fin p \<and> b = Fin q \<and> c = Fin r \<and> d = Fin s
        \<and> p \<in> \<nat> \<and> q \<in> \<nat> \<and> r \<in> \<nat> \<and> s \<in> \<nat>
        \<and> 0 < q \<and> 0 < r \<and> p * s \<le> 2 ^ 53 \<and> q * r \<le> 2 ^ 53"
    using that odds_ratio_whole_counts [of p q r s] by blast
  from formula_eq point shown whole show ?thesis
    by blast
qed

text \<open>The scenario of the specification: \<open>a=70, b=30, c=40, d=60\<close> gives 3.5.\<close>

theorem odds_ratio_point_witness:
  "strict_ne (Fin 30) (Fin 0) \<and> strict_ne (Fin 40) (Fin 0)
   \<and> (70::real) \<in> \<nat> \<and> (30::real) \<in> \<nat> \<and> (40::real) \<in> \<nat> \<and> (60::real) \<in> \<nat>
   \<and> (0::real) < 30 \<and> (0::real) < 40
   \<and> (70::real) * 60 \<le> 2 ^ 53 \<and> (30::real) * 40 \<le> 2 ^ 53
   \<and> epiMeasures_or (epi_counts 70 30 40 60) = Fin (7 / 2)
   \<and> ciEpi_orPoint (ci_counts 70 30 40 60 (Fin 95)) = Fin (7 / 2)
   \<and> val (results (epiMeasures_compute (sample_externals 2) (epi_counts 70 30 40 60)) ! 1)
       = Text ''3.500''"
proof -
  have hyps: "strict_ne (Fin 30) (Fin 0) \<and> strict_ne (Fin 40) (Fin 0)"
    "Fin 70 = Fin 70 \<and> Fin 30 = Fin 30 \<and> Fin 40 = Fin 40 \<and> Fin 60 = Fin 60
     \<and> (70::real) \<in> \<nat> \<and> (30::real) \<in> \<nat> \<and> (40::real) \<in> \<nat> \<and> (60::real) \<in> \<nat>
     \<and> (0::real) < 30 \<and> (0::real) < 40
     \<and> (70::real) * 60 \<le> 2 ^ 53 \<and> (30::real) * 40 \<le> 2 ^ 53"
    by (simp_all add: strict_ne_zero)
  have "is_double (of_int 7 * 2 powi (- 1))"
    by (rule is_double_dyadic) simp_all
  then have "rnd_val (7 / 2) = 7 / 2"
    using rnd_val_exact [of "7 / 2"] by (simp add: power_int_minus)
  then have quotient: "rnd_val ((70 * 60) / (30 * 40)) = 7 / 2"
    by simp
  have shown: "toFixed digits (Fin (7 / 2)) 3 = ''3.500''" for digits
    by (simp add: toFixed_def fixed_digits_def decimal.simps digit_char_def Let_def)
  from odds_ratio_point [of "Fin 70" "Fin 30" "Fin 40" "Fin 60" "Fin 95" "sample_externals 2"
      70 30 40 60] hyps
  have "epiMeasures_or (epi_counts 70 30 40 60) = Fin (7 / 2)
      \<and> ciEpi_orPoint (ci_counts 70 30 40 60 (Fin 95)) = Fin (7 / 2)
      \<and> val (results (epiMeasures_compute (sample_externals 2) (epi_counts 70 30 40 60)) ! 1)
          = Text ''3.500''"
    by (simp only: quotient shown epi_counts_def ci_counts_def simp_thms)
  with hyps show ?thesis
    by (simp only: simp_thms)
qed

text \<open>
  The value is the quotient of the doubles \<open>a*d\<close> and \<open>b*c\<close>, not of the reals: when the
  product \<open>a*d\<close> overflows it is \<open>Infinity\<close>.
\<close>

lemma odds_ratio_overflow:
  "epiMeasures_or (epi_counts (2 ^ 512) 1 1 (2 ^ 512)) = PInf"
proof -
  have "rnd_val (2 ^ 512 * 2 ^ 512) = 2 ^ 1024"
    using rnd_val_power [of 1024] by (simp add: power_add [symmetric])
  then have "round64 (2 ^ 512 * 2 ^ 512) = PInf"
    by (simp add: round64_def Let_def inf_of_def)
  then have "Fin (2 ^ 512) * Fin (2 ^ 512) = PInf"
    by simp
  moreover have "Fin 1 * Fin 1 = Fin 1"
    using Fin_times_exact [of 1 1] is_double_power [of 0] by simp
  ultimately show ?thesis
    by (simp add: epiMeasures_or_def inf_of_def)
qed

section \<open>Zero denominators\<close>

text \<open>
  No operation of the calculators can throw: arithmetic on numbers is total, with
  \<open>Infinity\<close> and NaN as results, and \<open>toFixed\<close> is called with the literal digit
  counts 2, 3 and 4. What differs between the calculators is the text a value that is
  not finite is printed as: \<open>ciEpi\<close> passes its point estimates through the formatter
  \<open>f\<close>, which prints the infinity sign; \<open>epiMeasures\<close> prints with \<open>toFixed\<close> alone.
\<close>

lemma ciEpi_entries:
  "val (results (ciEpi_compute env data) ! 0) = Text (ciEpi_f env (ciEpi_orPoint data))"
  "val (results (ciEpi_compute env data) ! 4) = Text (ciEpi_f env (ciEpi_rr data))"
  by (simp_all add: ciEpi_compute_def Let_def)

lemma ciEpi_f_not_finite:
  "ciEpi_f env PInf = infinity_sign" "ciEpi_f env NInf = infinity_sign"
  "ciEpi_f env NaN = infinity_sign"
  by (simp_all add: ciEpi_f_def)

lemma exposed_risk_sample: "Fin 2 / (Fin 2 + Fin 18) = Fin (rnd_val (1 / 10))"
  and exposed_risk_sample_pos: "0 < rnd_val (1 / 10)"
proof -
  have "Fin 2 + Fin 18 = Fin (2 + 18)"
    by (intro Fin_plus_exact is_double_Nats) simp_all
  moreover have "Fin 2 / Fin 20 = Fin (rnd_val (2 / 20))"
    using power_increasing [of 1 1023 "2::real"] by (intro Fin_divide_nonneg) simp_all
  ultimately show "Fin 2 / (Fin 2 + Fin 18) = Fin (rnd_val (1 / 10))"
    by simp
  have "(2::real) powi (- 1074) \<le> 2 powi (- 4)"
    by (rule power_int_increasing) simp_all
  also have "\<dots> \<le> 1 / 10"
    by (simp add: power_int_minus)
  finally show "0 < rnd_val (1 / 10)"
    by (rule rnd_val_pos)
qed

text \<open>
  C6. At \<open>a=2, b=18, c=0, d=20\<close> (the second example of \<open>ciEpi\<close>) the relative risk and
  the odds ratio are both \<open>Infinity\<close>. \<open>epiMeasures\<close> prints both entries as the text
  \<open>Infinity\<close>, which is not the infinity sign; \<open>ciEpi\<close> prints the infinity sign for
  both.
\<close>

theorem epiMeasures_prints_Infinity:
  "val (results (epiMeasures_compute env (epi_counts 2 18 0 20)) ! 0) = Text ''Infinity''
   \<and> val (results (epiMeasures_compute env (epi_counts 2 18 0 20)) ! 1) = Text ''Infinity''
   \<and> ''Infinity'' \<noteq> infinity_sign
   \<and> val (results (ciEpi_compute env (ci_counts 2 18 0 20 cf)) ! 0) = Text infinity_sign
   \<and> val (results (ciEpi_compute env (ci_counts 2 18 0 20 cf)) ! 4) = Text infinity_sign"
proof -
  note r1 = exposed_risk_sample and pos = exposed_risk_sample_pos
  have "Fin 0 + Fin 20 = Fin (0 + 20)"
    by (intro Fin_plus_exact is_double_Nats) simp_all
  then have r2: "Fin 0 / (Fin 0 + Fin 20) = Fin 0"
    by (simp add: zero_of_def)
  have "epiMeasures_rr (epi_counts 2 18 0 20) = Fin (rnd_val (1 / 10)) / Fin 0"
    unfolding epiMeasures_rr_def Let_def epi_counts_simps r1 r2 ..
  then have rr: "epiMeasures_rr (epi_counts 2 18 0 20) = PInf"
    using pos by (simp add: inf_of_def)
  have "Fin 2 * Fin 20 = Fin (2 * 20)"
    by (intro Fin_times_exact is_double_Nats) simp_all
  then have or: "epiMeasures_or (epi_counts 2 18 0 20) = PInf"
    by (simp add: epiMeasures_or_def zero_of_def inf_of_def)
  have point: "ciEpi_orPoint (ci_counts 2 18 0 20 cf) = PInf"
    by (simp add: ciEpi_orPoint_def strict_ne_zero)
  have "ciEpi_r1 (ci_counts 2 18 0 20 cf) = or_else (Fin (rnd_val (1 / 10))) (Fin 0)"
    unfolding ciEpi_r1_def ci_counts_simps r1 ..
  then have "ciEpi_r1 (ci_counts 2 18 0 20 cf) = Fin (rnd_val (1 / 10))"
    using pos by (simp add: or_else_def truthy_def)
  moreover have "ciEpi_r2 (ci_counts 2 18 0 20 cf) = or_else (Fin 0) (Fin 0)"
    unfolding ciEpi_r2_def ci_counts_simps r2 ..
  then have "ciEpi_r2 (ci_counts 2 18 0 20 cf) = Fin 0"
    by (simp add: or_else_def)
  ultimately have risk: "ciEpi_rr (ci_counts 2 18 0 20 cf) = PInf"
    using pos by (simp add: ciEpi_rr_def strict_eq_zero)
  show ?thesis
    unfolding epiMeasures_entries ciEpi_entries rr or point risk
    by (simp add: toFixed_not_finite ciEpi_f_not_finite infinity_sign_def)
qed

text \<open>
  With a negative zero in the denominator the quotient is \<open>-Infinity\<close>, and \<open>epiMeasures\<close>
  prints it as such.
\<close>

lemma epiMeasures_prints_negative_Infinity:
  "val (results (epiMeasures_compute env
       \<lparr>cell_a = Fin 1, cell_b = NZero, cell_c = Fin 1, cell_d = Fin 1\<rparr>) ! 1)
   = Text ''-Infinity''"
proof -
  have "Fin 1 * Fin 1 = Fin 1"
    using Fin_times_exact [of 1 1] is_double_power [of 0] by simp
  then have "epiMeasures_or \<lparr>cell_a = Fin 1, cell_b = NZero, cell_c = Fin 1, cell_d = Fin 1\<rparr>
      = NInf"
    by (simp add: epiMeasures_or_def zero_of_def inf_of_def)
  then show ?thesis
    by (simp only: epiMeasures_entries(2) toFixed_not_finite)
qed

section \<open>Inputs of the declared shape\<close>

lemma absent_property:
  assumes "k \<notin> dom data"
  shows "ToNumber (get_property data k) = NaN"
  using assms by (simp add: get_property_def dom_def)

lemma riskRatioCalc_risk_entries:
  "val (results (riskRatioCalc_compute env utils data) ! 2)
     = Text (formatPercent utils
         (ToNumber (get_property data ''a'')
          / (ToNumber (get_property data ''a'') + ToNumber (get_property data ''b''))))"
  "val (results (riskRatioCalc_compute env utils data) ! 3)
     = Text (formatPercent utils
         (ToNumber (get_property data ''c'')
          / (ToNumber (get_property data ''c'') + ToNumber (get_property data ''d''))))"
  by (simp_all add: riskRatioCalc_compute_def Let_def)

lemma oddsRatioCalc_odds_entries:
  "val (results (oddsRatioCalc_compute env utils data) ! 2)
     = Text (toFixed (number_digits env)
         (ToNumber (get_property data ''a'') / ToNumber (get_property data ''b'')) 3)"
  "val (results (oddsRatioCalc_compute env utils data) ! 3)
     = Text (toFixed (number_digits env)
         (ToNumber (get_property data ''c'') / ToNumber (get_property data ''d'')) 3)"
  by (simp_all add: oddsRatioCalc_compute_def Let_def)

lemma ratio_calc_labels:
  "label (results (riskRatioCalc_compute env utils data) ! 2) = ''Exposed Risk''"
  "label (results (riskRatioCalc_compute env utils data) ! 3) = ''Unexposed Risk''"
  "label (results (oddsRatioCalc_compute env utils data) ! 2) = ''Exposed Odds''"
  "label (results (oddsRatioCalc_compute env utils data) ! 3) = ''Unexposed Odds''"
  by (simp_all add: riskRatioCalc_compute_def oddsRatioCalc_compute_def Let_def)

text \<open>
  C10. For an object whose properties are exactly \<open>Exposed_cases\<close>, \<open>Unexposed_cases\<close>,
  \<open>Exposed_control\<close> and \<open>Unexposed_control\<close>, the properties \<open>a\<close>, \<open>b\<close>, \<open>c\<close>, \<open>d\<close> that
  \<open>compute\<close> reads are undefined: the entries \<open>Exposed Risk\<close> and \<open>Unexposed Risk\<close> are
  \<open>formatPercent\<close> of NaN, and the entries \<open>Exposed Odds\<close> and \<open>Unexposed Odds\<close> are the
  text \<open>NaN\<close>, whatever the four counts are.
\<close>

theorem declared_shape_gives_NaN:
  assumes "dom data = declared_keys"
  shows "label (results (riskRatioCalc_compute env utils data) ! 2) = ''Exposed Risk''
       \<and> val (results (riskRatioCalc_compute env utils data) ! 2)
           = Text (formatPercent utils NaN)
       \<and> label (results (riskRatioCalc_compute env utils data) ! 3) = ''Unexposed Risk''
       \<and> val (results (riskRatioCalc_compute env utils data) ! 3)
           = Text (formatPercent utils NaN)
       \<and> label (results (oddsRatioCalc_compute env utils data) ! 2) = ''Exposed Odds''
       \<and> val (results (oddsRatioCalc_compute env utils data) ! 2) = Text ''NaN''
       \<and> label (results (oddsRatioCalc_compute env utils data) ! 3) = ''Unexposed Odds''
       \<and> val (results (oddsRatioCalc_compute env utils data) ! 3) = Text ''NaN''"
proof -
  have absent: "ToNumber (get_property data k) = NaN" if "k \<in> {''a'', ''b'', ''c'', ''d''}" for k
  proof (rule absent_property)
    from that show "k \<notin> dom data"
      unfolding assms declared_keys_def by auto
  qed
  have a: "ToNumber (get_property data ''a'') = NaN" by (rule absent) simp
  have b: "ToNumber (get_property data ''b'') = NaN" by (rule absent) simp
  have c: "ToNumber (get_property data ''c'') = NaN" by (rule absent) simp
  have d: "ToNumber (get_property data ''d'') = NaN" by (rule absent) simp
  show ?thesis
    unfolding riskRatioCalc_risk_entries oddsRatioCalc_odds_entries ratio_calc_labels a b c d
    by (simp add: toFixed_not_finite)
qed

text \<open>The example of the source for the odds ratio calculator of that variant.\<close>

theorem declared_shape_gives_NaN_witness:
  "dom (declared_input (Fin 70) (Fin 30) (Fin 40) (Fin 60)) = declared_keys
   \<and> val (results (riskRatioCalc_compute (sample_externals 2) sample_epi_utils
            (declared_input (Fin 70) (Fin 30) (Fin 40) (Fin 60))) ! 2) = Text ''NaN%''
   \<and> val (results (riskRatioCalc_compute (sample_externals 2) sample_epi_utils
            (declared_input (Fin 70) (Fin 30) (Fin 40) (Fin 60))) ! 3) = Text ''NaN%''
   \<and> val (results (oddsRatioCalc_compute (sample_externals 2) sample_epi_utils
            (declared_input (Fin 70) (Fin 30) (Fin 40) (Fin 60))) ! 2) = Text ''NaN''
   \<and> val (results (oddsRatioCalc_compute (sample_externals 2) sample_epi_utils
            (declared_input (Fin 70) (Fin 30) (Fin 40) (Fin 60))) ! 3) = Text ''NaN''"
proof -
  have shape: "dom (declared_input (Fin 70) (Fin 30) (Fin 40) (Fin 60)) = declared_keys"
    by (auto simp add: declared_input_def declared_keys_def)
  have percent: "formatPercent sample_epi_utils NaN = ''NaN%''"
    by (simp add: sample_epi_utils_def toFixed_not_finite)
  from declared_shape_gives_NaN [OF shape, of "sample_externals 2" sample_epi_utils] shape
  show ?thesis
    by (simp add: percent)
qed

end
